theory Spec2Isabelle
  imports Main "HOL-Library.Word"
begin

unbundle bit_operations_syntax

text \<open>
  A shallow embedding of parts of the DreamPort firmware (a Dreamcast Maple Bus host and
  client for the RP2040) and the properties of them that its specification claims: the
  bus driver's checksum, transmit buffer and state machine (MapleBus.cpp), the cadence
  helper of the prioritized scheduler, the single-sender shortcut of the Flycast command
  parser, the client's main loop, and the default screens of the screen data.
\<close>

section \<open>Machine integers and faults\<close>

type_synonym u8 = "8 word"
type_synonym u16 = "16 word"
type_synonym u32 = "32 word"
type_synonym u64 = "64 word"

text \<open>
  The firmware is C++ for a 32-bit microcontroller: \<open>uint8_t\<close>, \<open>uint16_t\<close>, \<open>uint32_t\<close>
  and \<open>uint64_t\<close> are words of that width, \<open>size_t\<close> is 32 bits wide. Where the C++ would
  read or write outside an array, fail an \<open>assert\<close>, or divide by zero, the model returns
  a fault instead of a value. A busy-wait that polls the hardware is given the values it
  will read as a list; \<open>NO_MORE_SAMPLES\<close> says the list ended while the loop was still
  polling.
\<close>

datatype fault = OUT_OF_BOUNDS | ASSERT_FAILED | DIVIDE_BY_ZERO | NO_MORE_SAMPLES

section \<open>Maple packets\<close>

record Frame =
  command :: u8
  recipientAddr :: u8
  senderAddr :: u8
  length_field :: u8

record MaplePacket =
  frame :: Frame
  payload :: "u32 list"

text \<open>
  Modelled from the spec: \<open>MaplePacket::Frame::toWord\<close> and \<open>MaplePacket::getFrameWord\<close>
  are declared in MaplePacket.hpp, which is not among the sources. The spec gives the layout
  of the frame word, most significant byte first: command[31:24], recipient[23:16],
  sender[15:8], length[7:0].
\<close>

definition toWord :: "Frame \<Rightarrow> u32" where
  "toWord f =
     push_bit 24 (ucast (command f)) OR push_bit 16 (ucast (recipientAddr f))
       OR push_bit 8 (ucast (senderAddr f)) OR ucast (length_field f)"

definition getFrameWord :: "MaplePacket \<Rightarrow> u32" where
  "getFrameWord p = toWord (frame p)"

text \<open>
  Modelled from the spec: \<open>MaplePacket::Frame::fromWord\<close> (MaplePacket.hpp, absent) unpacks
  the four header bytes of the same layout.
\<close>

definition fromWord :: "u32 \<Rightarrow> Frame" where
  "fromWord w =
     \<lparr>command = ucast (drop_bit 24 w), recipientAddr = ucast (drop_bit 16 w),
      senderAddr = ucast (drop_bit 8 w), length_field = ucast w\<rparr>"

text \<open>
  Modelled from the spec: \<open>MaplePacket::getNumTotalBits\<close> (MaplePacket.hpp, absent); the
  spec's \<open>totalBits\<close> is \<open>(1 + payload.len) * 32 + 8\<close>.
\<close>

definition getNumTotalBits :: "MaplePacket \<Rightarrow> u32" where
  "getNumTotalBits p = (1 + of_nat (length (payload p))) * 32 + 8"

text \<open>
  Modelled from the spec: \<open>MaplePacket::isValid\<close> (MaplePacket.hpp, absent); the spec's
  predicate is \<open>payload.len == frame.length\<close>.
\<close>

definition isValid :: "MaplePacket \<Rightarrow> bool" where
  "isValid p \<longleftrightarrow> length (payload p) = unat (length_field (frame p))"

section \<open>The bus driver: checksum and transmit buffer (MapleBus.cpp)\<close>

subsection \<open>\<open>MapleBus::crc8\<close>\<close>

text \<open>
  \<open>crc8(uint32_t source, uint8_t& crc)\<close> walks the four bytes of the word as they lie in
  memory (the target is little-endian, so the least significant byte comes first) and
  XORs each into \<open>crc\<close>.
\<close>

definition memBytes :: "u32 \<Rightarrow> u8 list" where
  "memBytes source =
     [ucast source, ucast (drop_bit 8 source), ucast (drop_bit 16 source),
      ucast (drop_bit 24 source)]"

definition crc8 :: "u32 \<Rightarrow> u8 \<Rightarrow> u8" where
  "crc8 source crc = fold (\<lambda>b c. c XOR b) (memBytes source) crc"

text \<open>
  \<open>crc8(const uint32_t* source, uint32_t len, uint8_t& crc)\<close> first XORs the \<open>len\<close> words
  into one 32-bit word, then condenses that word with the function above.
\<close>

definition crc8_words :: "u32 list \<Rightarrow> u8 \<Rightarrow> u8" where
  "crc8_words source crc = crc8 (fold (\<lambda>w crc32. crc32 XOR w) source 0) crc"

text \<open>The checksum that \<open>write\<close> computes before it fills the transmit buffer.\<close>

definition writeCrc :: "MaplePacket \<Rightarrow> u8" where
  "writeCrc packet = crc8_words (payload packet) (crc8 (getFrameWord packet) 0)"

subsection \<open>Constants of the build\<close>

text \<open>
  \<open>write\<close> and \<open>processEvents\<close> use constants that are defined in headers outside the
  sources (the assembled PIO programs, \<open>MAPLE_NS_PER_BIT\<close>, the \<open>MAPLE_*\<close> timing macros,
  \<open>MaplePacket::getTxTimeNs\<close>, \<open>INT_DIVIDE_CEILING\<close>). They are parameters of the model:
  \<^item> \<open>END_SEQUENCE_PROGRAM\<close>: the seven byte-swapped instructions of the end sequence,
    by index;
  \<^item> \<open>REENTRY_INSTRUCTION\<close> and \<open>NS_PER_LOOP\<close>: the two static constants of MapleBus.cpp
    that are computed from the PIO program offsets and from \<open>MAPLE_NS_PER_BIT\<close>;
  \<^item> \<open>MAPLE_OPEN_LINE_CHECK_TIME_US\<close> and \<open>MAPLE_INTER_WORD_READ_TIMEOUT_US\<close>;
  \<^item> \<open>writeTimeoutUs\<close>: for a packet, the value of
    \<open>INT_DIVIDE_CEILING(totalWriteTimeNs, 1000)\<close> after \<open>totalWriteTimeNs\<close> has been scaled
    by \<open>MAPLE_WRITE_TIMEOUT_EXTRA_PERCENT\<close> (a floating-point product in the source).
\<close>

record Config =
  END_SEQUENCE_PROGRAM :: "nat \<Rightarrow> u16"
  REENTRY_INSTRUCTION :: u32
  NS_PER_LOOP :: u32
  MAPLE_OPEN_LINE_CHECK_TIME_US :: u64
  MAPLE_INTER_WORD_READ_TIMEOUT_US :: u64
  writeTimeoutUs :: "MaplePacket \<Rightarrow> u32"

text \<open>
  Modelled from the spec: \<open>DelayDefinition\<close> is declared in MapleBusInterface.hpp, which is
  not among the sources; the spec names its three members (\<open>delayUs\<close>, \<open>firstWordChunk\<close>,
  \<open>secondWordChunk\<close>), taken here as 32-bit unsigned.
\<close>

record DelayDefinition =
  delayUs :: u32
  firstWordChunk :: u32
  secondWordChunk :: u32

subsection \<open>Byte swaps\<close>

definition SWAP_U16_BYTES :: "u16 \<Rightarrow> u16" where
  "SWAP_U16_BYTES x = push_bit 8 x OR drop_bit 8 x"

definition flipWordBytes :: "u32 \<Rightarrow> u32" where
  "flipWordBytes w =
     push_bit 24 w OR (push_bit 8 w AND 0xFF0000) OR (drop_bit 8 w AND 0xFF00) OR drop_bit 24 w"

subsection \<open>The transmit buffer built by \<open>MapleBus::write\<close>\<close>

text \<open>
  The four words that close the buffer in both branches of \<open>write\<close>: the checksum in
  byte 0 with the first instruction of the end sequence in bytes 2 and 3, then the other
  six instructions, two to a word.
\<close>

definition endSequence :: "Config \<Rightarrow> u8 \<Rightarrow> u32 list" where
  "endSequence cfg crc =
     [ucast crc OR push_bit 16 (ucast (END_SEQUENCE_PROGRAM cfg 0)),
      ucast (END_SEQUENCE_PROGRAM cfg 1) OR push_bit 16 (ucast (END_SEQUENCE_PROGRAM cfg 2)),
      ucast (END_SEQUENCE_PROGRAM cfg 3) OR push_bit 16 (ucast (END_SEQUENCE_PROGRAM cfg 4)),
      ucast (END_SEQUENCE_PROGRAM cfg 5) OR push_bit 16 (ucast (END_SEQUENCE_PROGRAM cfg 6))]"

text \<open>
  The \<open>while (copiedPayloadWords < packet.payload.size())\<close> loop of the chunked branch.
  The accumulator is the buffer filled so far (\<open>mWriteBuffer[0..len)\<close>) and
  \<open>extraTimeUs\<close>. The source asserts \<open>secondWordChunk > 0\<close> before the loop; the guard
  repeats it, since with a chunk of no words the loop would never advance.
\<close>

function followingChunks ::
  "Config \<Rightarrow> u16 \<Rightarrow> DelayDefinition \<Rightarrow> u32 list \<Rightarrow> u32 \<Rightarrow> u32 list \<times> u32 \<Rightarrow> u32 list \<times> u32"
where
  "followingChunks cfg numLoops dd pl copiedPayloadWords (buf, extraTimeUs) =
     (if copiedPayloadWords < of_nat (length pl) \<and> secondWordChunk dd \<noteq> 0 then
        (let remainingWords = of_nat (length pl) - copiedPayloadWords;
             chunkWords = (if remainingWords > secondWordChunk dd
                           then secondWordChunk dd else remainingWords);
             sendCrc = (remainingWords = chunkWords);
             numBits = (ucast (chunkWords * 32) :: u16) + (if sendCrc then 8 else 0)
         in followingChunks cfg numLoops dd pl (copiedPayloadWords + chunkWords)
              (buf @ [REENTRY_INSTRUCTION cfg,
                      ucast (SWAP_U16_BYTES numLoops)
                        OR push_bit 16 (ucast (SWAP_U16_BYTES numBits))]
                   @ take (unat chunkWords) (drop (unat copiedPayloadWords) pl),
               extraTimeUs + (delayUs dd + 1)))
      else (buf, extraTimeUs))"
  by pat_completeness auto

lemma word_sub_decreases:
  fixes a c :: "'a::len word"
  assumes "c \<noteq> 0" and "c \<le> a"
  shows "unat (a - c) < unat a"
proof -
  have "unat (a - c) = unat a - unat c"
    using assms(2) by (rule unat_sub)
  moreover have "0 < unat c"
    using assms(1) by (simp add: unat_gt_0)
  moreover have "unat c \<le> unat a"
    using assms(2) by (simp add: word_le_nat_alt)
  ultimately show ?thesis by linarith
qed

termination followingChunks
proof (relation "measure (\<lambda>(cfg, numLoops, dd, pl, copied, acc).
                   unat ((of_nat (length pl) :: u32) - copied))", goal_cases)
  case 1
  show ?case by simp
next
  case (2 cfg numLoops dd pl copied buf extraTimeUs remainingWords chunkWords sendCrc numBits)
  have lt: "copied < of_nat (length pl)" and nz: "secondWordChunk dd \<noteq> 0"
    using 2(1) by auto
  have rem: "remainingWords = of_nat (length pl) - copied"
    using 2(2) by simp
  have remnz: "remainingWords \<noteq> 0"
    using lt rem by auto
  have cw: "chunkWords \<noteq> 0 \<and> chunkWords \<le> remainingWords"
    using 2(3) nz remnz by (auto simp: word_le_less_eq)
  have "of_nat (length pl) - (copied + chunkWords) = remainingWords - chunkWords"
    using rem by simp
  moreover have "unat (remainingWords - chunkWords) < unat remainingWords"
    using word_sub_decreases[of chunkWords remainingWords] cw by blast
  ultimately show ?case
    using rem by (simp add: diff_diff_eq)
qed

declare followingChunks.simps [simp del]

text \<open>
  \<open>fillWriteBuffer\<close> is the part of \<open>write\<close> between the checksum and the line check:
  it returns the words staged in \<open>mWriteBuffer[0..len)\<close> and \<open>extraTimeUs\<close>. The capacity
  of \<open>mWriteBuffer\<close> is declared in MapleBus.hpp (absent) and is not modelled. The two
  \<open>assert\<close>s of the chunked branch and the division by \<open>NS_PER_LOOP\<close> are faults when
  they fail.
\<close>

definition fillWriteBuffer ::
  "Config \<Rightarrow> MaplePacket \<Rightarrow> DelayDefinition \<Rightarrow> fault + (u32 list \<times> u32)"
where
  "fillWriteBuffer cfg packet delayDefinition =
     (let frameWord = getFrameWord packet;
          crc = writeCrc packet;
          pl = payload packet
      in
        if delayUs delayDefinition = 0
           \<or> firstWordChunk delayDefinition \<ge> of_nat (length pl) + 1
        then
          Inr ([flipWordBytes (getNumTotalBits packet), frameWord] @ pl @ endSequence cfg crc, 0)
        else if firstWordChunk delayDefinition = 0 then Inl ASSERT_FAILED
        else if secondWordChunk delayDefinition = 0 then Inl ASSERT_FAILED
        else if NS_PER_LOOP cfg = 0 then Inl DIVIDE_BY_ZERO
        else
          (let numLoops = (ucast ((delayUs delayDefinition * 1000) div NS_PER_LOOP cfg) :: u16);
               first = firstWordChunk delayDefinition - 1;
               buf0 = [flipWordBytes (firstWordChunk delayDefinition * 32), frameWord]
                        @ take (unat first) pl;
               r = followingChunks cfg numLoops (delayDefinition\<lparr>firstWordChunk := first\<rparr>)
                     pl first (buf0, 0)
           in Inr (fst r @ endSequence cfg crc, snd r)))"

section \<open>The bus driver: state machine (MapleBus.cpp)\<close>

text \<open>
  Modelled from the spec: the enumerations \<open>Phase\<close> and \<open>FailureReason\<close> and the structure
  \<open>Status\<close> are declared in MapleBusInterface.hpp, which is not among the sources. The
  spec lists the phases and the failure reasons; the members of \<open>Status\<close> are those
  \<open>processEvents\<close> assigns. A default-constructed \<open>Status\<close> has no failure reason and no
  read buffer.
\<close>

datatype Phase =
  IDLE | WRITE_IN_PROGRESS | WAITING_FOR_READ_START | READ_IN_PROGRESS
  | READ_COMPLETE | WRITE_COMPLETE | READ_FAILED | WRITE_FAILED

datatype FailureReason = CRC_INVALID | MISSING_DATA | BUFFER_OVERFLOW | TIMEOUT

record Status =
  phase :: Phase
  failureReason :: "FailureReason option"
  readBuffer :: "u32 list option"
  readBufferLen :: u32

definition defaultStatus :: Status where
  "defaultStatus = \<lparr>phase = IDLE, failureReason = None, readBuffer = None, readBufferLen = 0\<rparr>"

text \<open>
  The driver's members, followed by the hardware it owns. The PIO state machines
  (\<open>mSmOut\<close>, \<open>mSmIn\<close>) are classes outside the sources: the model keeps whether each is
  running. \<open>dirPinLevel\<close> is the level last put on the direction pin, \<open>txDma\<close> the words
  handed to the write DMA channel (\<open>None\<close> once aborted), \<open>rxTransferCount\<close> the
  \<open>transfer_count\<close> register of the read DMA channel, which the hardware counts down
  from the buffer size as words arrive. \<open>mWriteBuffer\<close> holds the staged words only.
  \<open>sizeof(mReadBuffer) / sizeof(mReadBuffer[0])\<close> is the length of the list.
\<close>

datatype SmIn = SM_IN_STOPPED | SM_IN_PRESTARTED | SM_IN_STARTED

record MapleBus =
  mDirPin :: int
  mDirOutHigh :: bool
  mMaskAB :: u32
  mWriteBuffer :: "u32 list"
  mReadBuffer :: "u32 list"
  mLastRead :: "u32 list"
  mCurrentPhase :: Phase
  mExpectingResponse :: bool
  mResponseTimeoutUs :: u64
  mProcKillTime :: u64
  mLastReceivedWordTimeUs :: u64
  mLastReadTransferCount :: u32
  smOutRunning :: bool
  smIn :: SmIn
  dirPinLevel :: bool
  txDma :: "u32 list option"
  rxDmaArmed :: bool
  rxTransferCount :: u32

text \<open>
  Modelled from the spec: \<open>MapleBus::isBusy\<close> is declared in MapleBus.hpp (absent). By
  the spec a new operation may begin only when the phase is \<open>IDLE\<close>, and \<open>write\<close> fails
  if \<open>phase != IDLE\<close>.
\<close>

definition isBusy :: "MapleBus \<Rightarrow> bool" where
  "isBusy s \<longleftrightarrow> mCurrentPhase s \<noteq> IDLE"

subsection \<open>\<open>MapleBus::lineCheck\<close>\<close>

text \<open>
  What \<open>write\<close> reads from the clock and the pins: \<open>time_us_64()\<close> at the start of
  \<open>lineCheck\<close>; for every turn of its \<open>do ... while\<close> loop the value of \<open>gpio_get_all()\<close>
  and of the \<open>time_us_64()\<close> that follows; and \<open>time_us_64()\<close> when the kill time is set.
\<close>

record WriteEnv =
  lineCheckClock :: u64
  lineSamples :: "(u32 \<times> u64) list"
  killClock :: u64

fun lineCheckLoop :: "u32 \<Rightarrow> u64 \<Rightarrow> (u32 \<times> u64) list \<Rightarrow> fault + bool" where
  "lineCheckLoop maskAB targetTime [] = Inl NO_MORE_SAMPLES"
| "lineCheckLoop maskAB targetTime ((gpio, clock) # rest) =
     (if gpio AND maskAB \<noteq> maskAB then Inr False
      else if clock < targetTime then lineCheckLoop maskAB targetTime rest
      else Inr True)"

definition lineCheck :: "Config \<Rightarrow> MapleBus \<Rightarrow> WriteEnv \<Rightarrow> fault + bool" where
  "lineCheck cfg s env =
     (if MAPLE_OPEN_LINE_CHECK_TIME_US cfg > 0 then
        lineCheckLoop (mMaskAB s)
          (lineCheckClock env + MAPLE_OPEN_LINE_CHECK_TIME_US cfg + 1) (lineSamples env)
      else Inr True)"

subsection \<open>\<open>MapleBus::write\<close>\<close>

text \<open>The name \<open>write\<close> is a keyword of Isabelle; the model of \<open>MapleBus::write\<close> is \<open>bus_write\<close>.\<close>

definition bus_write ::
  "Config \<Rightarrow> WriteEnv \<Rightarrow> MaplePacket \<Rightarrow> bool \<Rightarrow> u64 \<Rightarrow> DelayDefinition \<Rightarrow> MapleBus
     \<Rightarrow> fault + (bool \<times> MapleBus)"
where
  "bus_write cfg env packet autostartRead readTimeoutUs delayDefinition s =
     (if isBusy s then Inr (False, s)
      else
        (let s1 = s\<lparr>txDma := None, rxDmaArmed := False\<rparr> in
         case fillWriteBuffer cfg packet delayDefinition of
           Inl f \<Rightarrow> Inl f
         | Inr (buf, extraTimeUs) \<Rightarrow>
             (let s2 = s1\<lparr>mWriteBuffer := buf\<rparr> in
              case lineCheck cfg s2 env of
                Inl f \<Rightarrow> Inl f
              | Inr ok \<Rightarrow>
                  if ok then
                    (let s3 = s2\<lparr>mExpectingResponse := autostartRead,
                                 mResponseTimeoutUs := readTimeoutUs,
                                 mCurrentPhase := WRITE_IN_PROGRESS\<rparr>;
                         s4 = (if autostartRead
                               then s3\<lparr>mLastReadTransferCount := of_nat (length (mReadBuffer s3)),
                                       rxDmaArmed := True,
                                       rxTransferCount := of_nat (length (mReadBuffer s3)),
                                       smIn := SM_IN_PRESTARTED\<rparr>
                               else s3);
                         s5 = s4\<lparr>smOutRunning := True\<rparr>;
                         s6 = (if mDirPin s5 \<ge> 0 then s5\<lparr>dirPinLevel := mDirOutHigh s5\<rparr> else s5);
                         s7 = s6\<lparr>txDma := Some buf,
                                 mProcKillTime := killClock env + ucast (writeTimeoutUs cfg packet)
                                                    + ucast extraTimeUs\<rparr>
                     in Inr (True, s7))
                  else Inr (False, s2))))"

subsection \<open>\<open>MapleBus::processEvents\<close>\<close>

text \<open>
  \<open>wordCpy\<close> copies \<open>len\<close> words to the front of the destination array; copying from or
  to beyond the end of an array is a fault. \<open>readWord\<close> is an indexed read of an array.
\<close>

definition wordCpy :: "u32 list \<Rightarrow> u32 list \<Rightarrow> u32 \<Rightarrow> fault + u32 list" where
  "wordCpy dest source len =
     (if unat len \<le> length source \<and> unat len \<le> length dest
      then Inr (take (unat len) source @ drop (unat len) dest)
      else Inl OUT_OF_BOUNDS)"

definition readWord :: "u32 list \<Rightarrow> u32 \<Rightarrow> fault + u32" where
  "readWord arr i = (if unat i < length arr then Inr (arr ! unat i) else Inl OUT_OF_BOUNDS)"

text \<open>
  In phase \<open>READ_COMPLETE\<close> the source first waits, for at most a millisecond, until the
  receive FIFO is empty; the wait changes nothing in the driver, and \<open>rxTransferCount\<close>
  is the register as read after it.
\<close>

text \<open>
  The number of words received: the size of the read buffer less what is left of the
  DMA transfer (\<open>transfer_count\<close> counts down to 0).
\<close>

definition dmaWordsRead :: "MapleBus \<Rightarrow> u32" where
  "dmaWordsRead s = of_nat (length (mReadBuffer s)) - rxTransferCount s"

definition processEvents :: "Config \<Rightarrow> u64 \<Rightarrow> MapleBus \<Rightarrow> fault + (Status \<times> MapleBus)" where
  "processEvents cfg currentTimeUs s =
     (let status = defaultStatus\<lparr>phase := mCurrentPhase s\<rparr> in
      if phase status = READ_COMPLETE then
        (let dmaWordsRead = dmaWordsRead s in
         if dmaWordsRead > 1 then
           (case readWord (mReadBuffer s) 0 of
              Inl f \<Rightarrow> Inl f
            | Inr w0 \<Rightarrow>
                (let len = w0 AND 0xFF in
                 if len \<le> dmaWordsRead - 2 then
                   (case wordCpy (mLastRead s) (mReadBuffer s) (dmaWordsRead - 1) of
                      Inl f \<Rightarrow> Inl f
                    | Inr lastRead \<Rightarrow>
                        (case readWord (mReadBuffer s) (dmaWordsRead - 1) of
                           Inl f \<Rightarrow> Inl f
                         | Inr crcWord \<Rightarrow>
                             (let crc = crc8_words (take (unat (dmaWordsRead - 1)) lastRead) 0 in
                              if ucast crc = crcWord then
                                Inr (status\<lparr>readBuffer := Some lastRead,
                                            readBufferLen := dmaWordsRead - 1\<rparr>,
                                     s\<lparr>mLastRead := lastRead, mCurrentPhase := IDLE\<rparr>)
                              else
                                Inr (status\<lparr>phase := READ_FAILED,
                                            failureReason := Some CRC_INVALID\<rparr>,
                                     s\<lparr>mLastRead := lastRead, mCurrentPhase := IDLE\<rparr>))))
                 else
                   Inr (status\<lparr>phase := READ_FAILED, failureReason := Some MISSING_DATA\<rparr>,
                        s\<lparr>mCurrentPhase := IDLE\<rparr>)))
         else
           Inr (status\<lparr>phase := READ_FAILED, failureReason := Some MISSING_DATA\<rparr>,
                s\<lparr>mCurrentPhase := IDLE\<rparr>))
      else if phase status = WRITE_COMPLETE then
        Inr (status, s\<lparr>mCurrentPhase := IDLE\<rparr>)
      else if phase status = READ_IN_PROGRESS then
        (let transferCount = rxTransferCount s in
         if transferCount = 0 then
           Inr (status\<lparr>phase := READ_FAILED, failureReason := Some BUFFER_OVERFLOW\<rparr>,
                s\<lparr>mCurrentPhase := IDLE\<rparr>)
         else if mLastReadTransferCount s = transferCount then
           (if currentTimeUs > mLastReceivedWordTimeUs s
               \<and> currentTimeUs - mLastReceivedWordTimeUs s
                     \<ge> MAPLE_INTER_WORD_READ_TIMEOUT_US cfg
            then
              Inr (status\<lparr>phase := READ_FAILED, failureReason := Some TIMEOUT\<rparr>,
                   s\<lparr>smIn := SM_IN_STOPPED, mCurrentPhase := IDLE\<rparr>)
            else Inr (status, s))
         else
           Inr (status,
                s\<lparr>mLastReadTransferCount := transferCount,
                  mLastReceivedWordTimeUs := currentTimeUs\<rparr>))
      else if phase status \<noteq> IDLE \<and> currentTimeUs \<ge> mProcKillTime s then
        (if phase status = WAITING_FOR_READ_START then
           Inr (status\<lparr>phase := READ_FAILED, failureReason := Some TIMEOUT\<rparr>,
                s\<lparr>smIn := SM_IN_STOPPED, mCurrentPhase := IDLE\<rparr>)
         else
           (let s1 = s\<lparr>smOutRunning := False, smIn := SM_IN_STOPPED\<rparr>;
                s2 = (if mDirPin s1 \<ge> 0 then s1\<lparr>dirPinLevel := \<not> mDirOutHigh s1\<rparr> else s1)
            in Inr (status\<lparr>phase := WRITE_FAILED, failureReason := Some TIMEOUT\<rparr>,
                    s2\<lparr>mCurrentPhase := IDLE\<rparr>)))
      else Inr (status, s))"

section \<open>The prioritized scheduler's cadence helper\<close>

text \<open>
  Modelled from the spec: \<open>PrioritizedTxScheduler::computeNextTimeCadence\<close> is declared in
  PrioritizedTxScheduler.hpp (three \<open>uint64_t\<close> arguments, a \<open>uint64_t\<close> result), but its
  body is not among the sources. The spec: the smallest value greater than \<open>now\<close> that is
  congruent to \<open>offset\<close> modulo \<open>period\<close>; when \<open>now == offset\<close> the result is
  \<open>offset + period\<close>; for \<open>period == 0\<close> the behaviour is undefined. The model steps from
  \<open>offset\<close> in whole periods, forwards when the offset is not after \<open>now\<close> and backwards
  when it is, in the 64-bit unsigned arithmetic of the declaration, which wraps around
  at \<open>2^64\<close>.
\<close>

definition computeNextTimeCadence :: "u64 \<Rightarrow> u64 \<Rightarrow> u64 \<Rightarrow> u64" where
  "computeNextTimeCadence currentTime period offset =
     (if offset \<le> currentTime
      then offset + ((currentTime - offset) div period + 1) * period
      else offset - ((offset - currentTime - 1) div period) * period)"

section \<open>The Flycast command parser: submitting a parsed packet (FlycastCommandParser.cpp)\<close>

text \<open>
  The end of \<open>FlycastCommandParser::submit\<close>, from \<open>if (valid)\<close> on: what it does with
  the frame and the payload words that the text or binary parser has produced. It
  either adds the packet to the scheduler of index \<open>idx\<close>, naming one of the two echo
  transmitters (with the external priority, \<open>TX_TIME_ASAP\<close> and a response expected),
  or sends a failure response. \<open>mSenderAddresses\<close> is the array of \<open>mNumSenders\<close>
  configured sender addresses.
\<close>

datatype EchoTransmitter = flycastEchoTransmitter | flycastBinaryEchoTransmitter

datatype SubmitOutcome = SchedulerAdd nat EchoTransmitter MaplePacket | SendResponse string

text \<open>The search loop over the sender addresses: the first index whose address is \<open>sender\<close>.\<close>

fun findSender :: "u8 \<Rightarrow> u8 list \<Rightarrow> nat \<Rightarrow> nat option" where
  "findSender sender [] i = None"
| "findSender sender (a # as) i = (if sender = a then Some i else findSender sender as (Suc i))"

definition submitPacket :: "u8 list \<Rightarrow> bool \<Rightarrow> bool \<Rightarrow> Frame \<Rightarrow> u32 list \<Rightarrow> SubmitOutcome" where
  "submitPacket mSenderAddresses valid binaryParsed frameWord payloadWords =
     (if valid then
        (let packet = \<lparr>frame = frameWord, payload = payloadWords\<rparr> in
         if isValid packet then
           (let sender = senderAddr (frame packet);
                r = (if length mSenderAddresses = 1 then
                       (Some 0,
                        packet\<lparr>frame := (frame packet)
                                 \<lparr>recipientAddr := (recipientAddr (frame packet) AND 0x3F)
                                                     OR mSenderAddresses ! 0,
                                  senderAddr := mSenderAddresses ! 0\<rparr>\<rparr>)
                     else (findSender sender mSenderAddresses 0, packet))
            in case fst r of
                 Some idx \<Rightarrow>
                   SchedulerAdd idx
                     (if binaryParsed then flycastBinaryEchoTransmitter else flycastEchoTransmitter)
                     (snd r)
               | None \<Rightarrow> SendResponse (''*failed invalid sender'' @ [CHR 0x0A]))
         else SendResponse (''*failed packet invalid'' @ [CHR 0x0A]))
      else SendResponse (''*failed missing data'' @ [CHR 0x0A]))"

section \<open>The client's main loop (client_pico_non_volatile_mem.cpp)\<close>

text \<open>
  \<open>core0\<close> talks to the peripheral logic through \<open>client::DreamcastMainPeripheral\<close>, a
  class outside the sources. Its four member functions that the loop calls are
  parameters of the model, over a peripheral state \<open>'p\<close>: \<open>dispensePacket\<close> takes the
  packet received and the current \<open>packetOut\<close>, and returns whether to write, the new
  \<open>packetOut\<close> and the new peripheral state. The constant
  \<open>COMMAND_RESPONSE_REQUEST_RESEND\<close> (dreamcast_constants.h) and the frame of a reset
  packet (\<open>MaplePacket::Frame::defaultFrame\<close>) are parameters as well.
\<close>

record 'p ClientEnv =
  dispensePacket :: "MaplePacket \<Rightarrow> MaplePacket \<Rightarrow> 'p \<Rightarrow> bool \<times> MaplePacket \<times> 'p"
  isConnected :: "'p \<Rightarrow> bool"
  getAddress :: "'p \<Rightarrow> u8"
  reset :: "'p \<Rightarrow> 'p"
  COMMAND_RESPONSE_REQUEST_RESEND :: u8
  defaultFrame :: Frame

text \<open>
  Modelled from the spec: \<open>MaplePacket::set\<close> (MaplePacket.hpp, absent) parses a raw
  received frame: word 0 is the frame word, the words after it are the payload, and the
  length field gives the payload size, up to \<open>len - 1\<close>. Reading a frame of no words, or
  more words than the buffer holds, is a fault.
\<close>

definition packet_set :: "u32 list \<Rightarrow> u32 \<Rightarrow> fault + MaplePacket" where
  "packet_set words len =
     (if unat len = 0 \<or> length words < unat len then Inl OUT_OF_BOUNDS
      else Inr \<lparr>frame = fromWord (hd words),
                payload = take (min (unat (length_field (fromWord (hd words)))) (unat len - 1))
                            (tl words)\<rparr>)"

text \<open>
  Modelled from the spec: \<open>MaplePacket::reset\<close> returns to \<open>defaultFrame()\<close> and an empty
  payload; \<open>MaplePacket::updateFrameLength\<close> (both in MaplePacket.hpp, absent) makes the
  length field the size of the payload, which is the spec's validity invariant.
\<close>

definition packet_reset :: "Frame \<Rightarrow> MaplePacket" where
  "packet_reset dflt = \<lparr>frame = dflt, payload = []\<rparr>"

definition updateFrameLength :: "MaplePacket \<Rightarrow> MaplePacket" where
  "updateFrameLength p = p\<lparr>frame := (frame p)\<lparr>length_field := of_nat (length (payload p))\<rparr>\<rparr>"

text \<open>
  The local variables of \<open>core0\<close> that live across iterations, with the peripheral. The
  calls the loop makes are recorded in order: to \<open>dispensePacket\<close>, to \<open>bus->write\<close>
  (with the packet and the \<open>autostartRead\<close> flag) and to \<open>mainPeripheral.reset\<close>.
\<close>

record 'p ClientNode =
  lastSender :: u8
  packetOut :: MaplePacket
  lastPacketOut :: MaplePacket
  packetSent :: bool
  packetIn :: MaplePacket
  mainPeripheral :: 'p

datatype NodeCall = DispensePacket MaplePacket | BusWrite MaplePacket bool | PeripheralReset

text \<open>
  One iteration of the loop of \<open>core0\<close>, from the end of the read poll: \<open>status\<close> is the
  status on which the poll stopped. After \<open>bus->write\<close> the source polls
  \<open>processEvents\<close> until the phase is no longer \<open>WRITE_IN_PROGRESS\<close>; the status polled
  is local to the iteration and nothing of the node depends on it.
\<close>

definition core0_iteration ::
  "'p ClientEnv \<Rightarrow> Status \<Rightarrow> 'p ClientNode \<Rightarrow> fault + ('p ClientNode \<times> NodeCall list)"
where
  "core0_iteration env status n =
     (if phase status = READ_COMPLETE then
        (case readBuffer status of
           None \<Rightarrow> Inl OUT_OF_BOUNDS
         | Some buf \<Rightarrow>
             (case packet_set buf (readBufferLen status) of
                Inl f \<Rightarrow> Inl f
              | Inr pin \<Rightarrow>
                  (let n1 = n\<lparr>packetIn := pin, lastSender := senderAddr (frame pin)\<rparr>;
                       r = (if command (frame pin) = COMMAND_RESPONSE_REQUEST_RESEND env then
                              (if packetSent n1
                               then (True, n1\<lparr>packetOut := lastPacketOut n1\<rparr>, [])
                               else (False, n1, []))
                            else
                              (let d = dispensePacket env pin (packetOut n1) (mainPeripheral n1)
                               in (fst d,
                                   n1\<lparr>packetOut := fst (snd d), mainPeripheral := snd (snd d)\<rparr>,
                                   [DispensePacket pin])));
                       writeIt = fst r; n2 = fst (snd r); calls = snd (snd r)
                   in if writeIt then
                        Inr (n2\<lparr>packetSent := True, lastPacketOut := packetOut n2\<rparr>,
                             calls @ [BusWrite (packetOut n2) False])
                      else Inr (n2, calls))))
      else if phase status = READ_FAILED \<and> failureReason status = Some CRC_INVALID
              \<and> isConnected env (mainPeripheral n) then
        (let out = updateFrameLength
                     ((packet_reset (defaultFrame env))
                        \<lparr>frame := (defaultFrame env)
                           \<lparr>command := COMMAND_RESPONSE_REQUEST_RESEND env,
                            recipientAddr := lastSender n,
                            senderAddr := getAddress env (mainPeripheral n)\<rparr>\<rparr>)
         in Inr (n\<lparr>packetOut := out\<rparr>, [BusWrite out False]))
      else
        Inr (n\<lparr>mainPeripheral := reset env (mainPeripheral n)\<rparr>, [PeripheralReset]))"

text \<open>
  The \<open>while (true)\<close> loop of \<open>core0\<close> over the statuses on which its successive read
  polls stop (iterations in which \<open>startRead\<close> returns false do nothing); the calls are
  collected by iteration.
\<close>

fun core0_loop ::
  "'p ClientEnv \<Rightarrow> Status list \<Rightarrow> 'p ClientNode \<Rightarrow> fault + ('p ClientNode \<times> NodeCall list list)"
where
  "core0_loop env [] n = Inr (n, [])"
| "core0_loop env (status # rest) n =
     (case core0_iteration env status n of
        Inl f \<Rightarrow> Inl f
      | Inr (n', calls) \<Rightarrow>
          (case core0_loop env rest n' of
             Inl f \<Rightarrow> Inl f
           | Inr (n'', later) \<Rightarrow> Inr (n'', calls # later)))"

section \<open>The default screens (ScreenData.cpp)\<close>

text \<open>
  The array is declared as \<open>DEFAULT_SCREENS[NUM_DEFAULT_SCREENS][NUM_SCREEN_WORDS]\<close>; the
  two constants are defined in ScreenData.hpp, which is not among the sources. The
  initialiser gives four screens of 48 words, so the first dimension of the array, and
  with it \<open>NUM_DEFAULT_SCREENS\<close>, is the number of rows of the table.
\<close>

definition DEFAULT_SCREENS :: "u32 list list" where
  "DEFAULT_SCREENS =
     [[0x1FF8FFFF, 0xFFF80000, 0x00000000, 0x00004E81, 0x5BF80000, 0x46C53208, 0x0000B801, 0xF2E803E0,
       0xBFCE8AE8, 0x0FF04FA6, 0x92E81C38, 0x78895A08, 0x1BD84A87, 0xA3F81BD8, 0xE8FD9800, 0x18182FCA,
       0x16481FF8, 0xCFDDF080, 0x0FF0CD31, 0xF7A80000, 0x97242DA0, 0x0000419F, 0x16980000, 0x5BFB5C00,
       0x0C30F68C, 0x02780C30, 0x004424B8, 0x0C30D7D8, 0xAE580C30, 0x6806AD90, 0x0FF07D68, 0xF6680FF0,
       0x92B60D68, 0x0C300584, 0x4B480C30, 0x0032A000, 0x0C30FEAA, 0xABF80C30, 0x82F3AA08, 0x0FF0BA3B,
       0x92E807E0, 0xBA2732E8, 0x0000BA19, 0xF2E80000, 0x8287C208, 0x0000FE69, 0x83F80000, 0x00000000],
      [0x1FF8FFFF, 0xFFF80000, 0x00000000, 0x00004E81, 0x5BF80000, 0x46C53208, 0x0000B801, 0xF2E803E0,
       0xBFCE8AE8, 0x0FF04FA6, 0x92E81C38, 0x78895A08, 0x1BD84A87, 0xA3F81BD8, 0xE8FD9800, 0x18182FCA,
       0x16481FF8, 0xCFDDF080, 0x0FF0CD31, 0xF7A80000, 0x97242DA0, 0x0000419F, 0x16980000, 0x5BFB5C00,
       0x07F0F68C, 0x02780FF0, 0x004424B8, 0x0C30D7D8, 0xAE580C30, 0x6806AD90, 0x0C307D68, 0xF66807F0,
       0x92B60D68, 0x07F00584, 0x4B480C30, 0x0032A000, 0x0C30FEAA, 0xABF80C30, 0x82F3AA08, 0x0FF0BA3B,
       0x92E807F0, 0xBA2732E8, 0x0000BA19, 0xF2E80000, 0x8287C208, 0x0000FE69, 0x83F80000, 0x00000000],
      [0x1FF8FFFF, 0xFFF80000, 0x00000000, 0x00004E81, 0x5BF80000, 0x46C53208, 0x0000B801, 0xF2E803E0,
       0xBFCE8AE8, 0x0FF04FA6, 0x92E81C38, 0x78895A08, 0x1BD84A87, 0xA3F81BD8, 0xE8FD9800, 0x18182FCA,
       0x16481FF8, 0xCFDDF080, 0x0FF0CD31, 0xF7A80000, 0x97242DA0, 0x0000419F, 0x16980000, 0x5BFB5C00,
       0x07E0F68C, 0x02780FF0, 0x004424B8, 0x0C30D7D8, 0xAE580030, 0x6806AD90, 0x00307D68, 0xF6680030,
       0x92B60D68, 0x00300584, 0x4B480030, 0x0032A000, 0x0030FEAA, 0xABF80C30, 0x82F3AA08, 0x0FF0BA3B,
       0x92E807E0, 0xBA2732E8, 0x0000BA19, 0xF2E80000, 0x8287C208, 0x0000FE69, 0x83F80000, 0x00000000],
      [0x1FF8FFFF, 0xFFF80000, 0x00000000, 0x00004E81, 0x5BF80000, 0x46C53208, 0x0000B801, 0xF2E803E0,
       0xBFCE8AE8, 0x0FF04FA6, 0x92E81C38, 0x78895A08, 0x1BD84A87, 0xA3F81BD8, 0xE8FD9800, 0x18182FCA,
       0x16481FF8, 0xCFDDF080, 0x0FF0CD31, 0xF7A80000, 0x97242DA0, 0x0000419F, 0x16980000, 0x5BFB5C00,
       0x03F0F68C, 0x027807F0, 0x004424B8, 0x0E30D7D8, 0xAE580C30, 0x6806AD90, 0x0C307D68, 0xF6680C30,
       0x92B60D68, 0x0C300584, 0x4B480C30, 0x0032A000, 0x0C30FEAA, 0xABF80E30, 0x82F3AA08, 0x07F0BA3B,
       0x92E803F0, 0xBA2732E8, 0x0000BA19, 0xF2E80000, 0x8287C208, 0x0000FE69, 0x83F80000, 0x00000000]]"

definition NUM_DEFAULT_SCREENS :: u32 where
  "NUM_DEFAULT_SCREENS = of_nat (length DEFAULT_SCREENS)"

record ScreenData =
  mDefaultScreen :: "u32 list"
  mScreenData :: "u32 list"
  mNewDataAvailable :: bool

text \<open>
  Both the constructor and \<open>setDataToADefault\<close> begin with the same guard on
  \<open>defaultScreenNum\<close>; \<open>guardedScreenNum\<close> is its result, the index with which
  \<open>DEFAULT_SCREENS\<close> is then read. A read outside the array is a fault.
\<close>

definition guardedScreenNum :: "u32 \<Rightarrow> u32" where
  "guardedScreenNum defaultScreenNum =
     (if defaultScreenNum > NUM_DEFAULT_SCREENS then 0 else defaultScreenNum)"

definition readDefaultScreen :: "u32 \<Rightarrow> fault + u32 list" where
  "readDefaultScreen i =
     (if unat i < length DEFAULT_SCREENS then Inr (DEFAULT_SCREENS ! unat i)
      else Inl OUT_OF_BOUNDS)"

text \<open>
  The constructor copies the chosen screen to \<open>mDefaultScreen\<close> and calls
  \<open>resetToDefault\<close>, which copies it on to \<open>mScreenData\<close> and sets \<open>mNewDataAvailable\<close>.
\<close>

definition ScreenData_new :: "u32 \<Rightarrow> fault + ScreenData" where
  "ScreenData_new defaultScreenNum =
     (case readDefaultScreen (guardedScreenNum defaultScreenNum) of
        Inl f \<Rightarrow> Inl f
      | Inr screen \<Rightarrow>
          Inr \<lparr>mDefaultScreen = screen, mScreenData = screen, mNewDataAvailable = True\<rparr>)"

text \<open>
  \<open>setDataToADefault\<close> forms the address of the chosen row and passes it to \<open>setData\<close>
  with its default arguments (declared in ScreenData.hpp; taken to be the whole screen).
  \<open>setData\<close> reads the row only in the \<open>memcpy\<close> it does when the lock guard has
  obtained the mutex (\<open>locked\<close>); without the lock it prints a fault message, reads
  nothing and leaves the screen data as it was.
\<close>

definition setDataToADefault :: "bool \<Rightarrow> u32 \<Rightarrow> ScreenData \<Rightarrow> fault + ScreenData" where
  "setDataToADefault locked defaultScreenNum s =
     (let row = guardedScreenNum defaultScreenNum in
      if locked then
        (case readDefaultScreen row of
           Inl f \<Rightarrow> Inl f
         | Inr screen \<Rightarrow> Inr (s\<lparr>mScreenData := screen, mNewDataAvailable := True\<rparr>))
      else Inr s)"

section \<open>The checksum as the spec states it\<close>

text \<open>
  The spec's trailer is the XOR of every byte of the header and payload words. On the
  wire each word goes out most significant byte first.
\<close>

definition wireBytes :: "u32 \<Rightarrow> u8 list" where
  "wireBytes w = [ucast (drop_bit 24 w), ucast (drop_bit 16 w), ucast (drop_bit 8 w), ucast w]"

definition xorBytes :: "u8 list \<Rightarrow> u8" where
  "xorBytes bs = foldr (XOR) bs 0"

definition packetBytes :: "MaplePacket \<Rightarrow> u8 list" where
  "packetBytes p = concat (map wireBytes (getFrameWord p # payload p))"

text \<open>A configuration, a packet and a delay definition for the closed examples.\<close>

definition exampleConfig :: Config where
  "exampleConfig =
     \<lparr>END_SEQUENCE_PROGRAM = (\<lambda>i. of_nat (i + 1)), REENTRY_INSTRUCTION = 1, NS_PER_LOOP = 200,
      MAPLE_OPEN_LINE_CHECK_TIME_US = 10, MAPLE_INTER_WORD_READ_TIMEOUT_US = 300,
      writeTimeoutUs = (\<lambda>p. 100)\<rparr>"

definition examplePacket :: MaplePacket where
  "examplePacket = \<lparr>frame = fromWord 0x0C200001, payload = [0x01020304]\<rparr>"

definition noDelay :: DelayDefinition where
  "noDelay = \<lparr>delayUs = 0, firstWordChunk = 0, secondWordChunk = 0\<rparr>"

text \<open>
  A driver with a direction pin on GPIO 2 and read buffers of 258 words, idle, and the
  same driver when a read has completed after a single word.
\<close>

definition exampleBus :: MapleBus where
  "exampleBus =
     \<lparr>mDirPin = 2, mDirOutHigh = True, mMaskAB = 0x3,
      mWriteBuffer = [], mReadBuffer = replicate 258 0, mLastRead = replicate 258 0,
      mCurrentPhase = IDLE, mExpectingResponse = False, mResponseTimeoutUs = 0,
      mProcKillTime = 0xFFFFFFFFFFFFFFFF, mLastReceivedWordTimeUs = 0,
      mLastReadTransferCount = 0, smOutRunning = False, smIn = SM_IN_STOPPED,
      dirPinLevel = False, txDma = None, rxDmaArmed = False, rxTransferCount = 258\<rparr>"

definition shortReadBus :: MapleBus where
  "shortReadBus = exampleBus\<lparr>mCurrentPhase := READ_COMPLETE, rxTransferCount := 257\<rparr>"

text \<open>
  The same driver after a read of three words: a frame word announcing one payload
  word, the payload word, and the checksum word \<open>0x20\<close>.
\<close>

definition goodReadBus :: MapleBus where
  "goodReadBus = exampleBus\<lparr>mCurrentPhase := READ_COMPLETE, rxTransferCount := 255,
                            mReadBuffer := [0x05002001, 0x01020304, 0x00000020] @ replicate 255 0\<rparr>"

text \<open>
  The driver waiting for a response, writing, and in the middle of a read whose last
  word arrived at time 100 with 250 words left of the transfer.
\<close>

definition waitingBus :: MapleBus where
  "waitingBus = exampleBus\<lparr>mCurrentPhase := WAITING_FOR_READ_START, mProcKillTime := 5000,
                           smIn := SM_IN_STARTED\<rparr>"

definition writingBus :: MapleBus where
  "writingBus = exampleBus\<lparr>mCurrentPhase := WRITE_IN_PROGRESS, mProcKillTime := 5000,
                           smOutRunning := True, smIn := SM_IN_PRESTARTED, dirPinLevel := True\<rparr>"

definition readingBus :: MapleBus where
  "readingBus = exampleBus\<lparr>mCurrentPhase := READ_IN_PROGRESS, mProcKillTime := 50,
                           smIn := SM_IN_STARTED, rxTransferCount := 250,
                           mLastReadTransferCount := 250, mLastReceivedWordTimeUs := 100\<rparr>"

text \<open>
  Two runs of the line check that starts at time 1000 with a window of 10 microseconds:
  in the first the second sample shows line B low, in the second both lines stay high
  until the window has passed.
\<close>

definition lowLineEnv :: WriteEnv where
  "lowLineEnv = \<lparr>lineCheckClock = 1000, lineSamples = [(0x3, 1001), (0x1, 1002), (0x3, 1003)],
                 killClock = 1020\<rparr>"

definition openLineEnv :: WriteEnv where
  "openLineEnv = \<lparr>lineCheckClock = 1000, lineSamples = [(0x3, 1004), (0x7, 1008), (0x3, 1012)],
                  killClock = 1020\<rparr>"

text \<open>
  A client whose peripheral state is just the flag "connected": \<open>dispensePacket\<close>
  answers every packet and connects, \<open>reset\<close> disconnects. The node has sent
  \<open>examplePacket\<close> before and is not connected. The two statuses are a completed read of
  a resend request (frame word \<open>0xFC200000\<close>) and a read that failed its checksum.
\<close>

definition exampleClientEnv :: "bool ClientEnv" where
  "exampleClientEnv =
     \<lparr>dispensePacket = (\<lambda>pin pout connected.
          (True, \<lparr>frame = \<lparr>command = 0x05, recipientAddr = senderAddr (frame pin),
                           senderAddr = 0x20, length_field = 0\<rparr>, payload = []\<rparr>, True)),
      isConnected = (\<lambda>connected. connected),
      getAddress = (\<lambda>connected. 0x20),
      reset = (\<lambda>connected. False),
      COMMAND_RESPONSE_REQUEST_RESEND = 0xFC,
      defaultFrame = \<lparr>command = 0, recipientAddr = 0, senderAddr = 0, length_field = 0\<rparr>\<rparr>"

definition exampleNode :: "bool ClientNode" where
  "exampleNode =
     \<lparr>lastSender = 0x00, packetOut = examplePacket, lastPacketOut = examplePacket,
      packetSent = True, packetIn = \<lparr>frame = fromWord 0, payload = []\<rparr>,
      mainPeripheral = False\<rparr>"

definition resendRequestStatus :: Status where
  "resendRequestStatus =
     \<lparr>phase = READ_COMPLETE, failureReason = None,
      readBuffer = Some [0xFC200000, 0, 0], readBufferLen = 1\<rparr>"

definition crcFailedStatus :: Status where
  "crcFailedStatus = defaultStatus\<lparr>phase := READ_FAILED, failureReason := Some CRC_INVALID\<rparr>"

text \<open>
  Two more statuses: a completed read of a device information request (frame word
  \<open>0x01200000\<close>), and a read that timed out.
\<close>

definition deviceInfoRequestStatus :: Status where
  "deviceInfoRequestStatus =
     \<lparr>phase = READ_COMPLETE, failureReason = None,
      readBuffer = Some [0x01200000, 0, 0], readBufferLen = 1\<rparr>"

definition readTimeoutStatus :: Status where
  "readTimeoutStatus = defaultStatus\<lparr>phase := READ_FAILED, failureReason := Some TIMEOUT\<rparr>"

section \<open>Properties of the checksum\<close>

lemma xorBytes_append: "xorBytes (xs @ ys) = xorBytes xs XOR xorBytes ys"
  by (induction xs) (simp_all add: xorBytes_def xor.assoc)

lemma crc8_eq: "crc8 w c = c XOR xorBytes (wireBytes w)"
  by (simp add: crc8_def memBytes_def wireBytes_def xorBytes_def xor.assoc xor.left_commute xor.commute)

lemma xorBytes_wire_xor:
  "xorBytes (wireBytes (a XOR b)) = xorBytes (wireBytes a) XOR xorBytes (wireBytes b)"
  by (simp add: wireBytes_def xorBytes_def unsigned_xor_eq drop_bit_xor xor.assoc xor.left_commute xor.commute)

lemma fold_xor_words:
  "xorBytes (wireBytes (fold (\<lambda>w crc32. crc32 XOR w) ws acc))
     = xorBytes (wireBytes acc) XOR xorBytes (concat (map wireBytes ws))"
proof (induction ws arbitrary: acc)
  case Nil
  show ?case by (simp add: xorBytes_def)
next
  case (Cons w ws)
  show ?case
    by (simp add: Cons.IH xorBytes_wire_xor xorBytes_append xor.assoc)
qed

lemma wire_zero: "xorBytes (wireBytes 0) = 0"
  by (simp add: wireBytes_def xorBytes_def)

lemma crc8_words_eq: "crc8_words ws c = c XOR xorBytes (concat (map wireBytes ws))"
  by (simp add: crc8_words_def crc8_eq fold_xor_words wire_zero)

lemma writeCrc_eq: "writeCrc p = xorBytes (packetBytes p)"
  by (simp add: writeCrc_def crc8_words_eq crc8_eq packetBytes_def xorBytes_append)

lemma length_packetBytes: "length (packetBytes p) = 4 * (1 + length (payload p))"
  by (simp add: packetBytes_def wireBytes_def length_concat comp_def sum_list_triv)

lemma endSequence_crc: "(ucast (hd (endSequence cfg crc)) :: u8) = crc"
  unfolding endSequence_def list.sel
  by (rule bit_word_eqI) (auto simp add: bit_simps)

lemma fill_trailer:
  "fillWriteBuffer cfg p dd = Inr (buf, e) \<Longrightarrow> \<exists>body. buf = body @ endSequence cfg (writeCrc p)"
  by (auto simp: fillWriteBuffer_def Let_def split: if_splits)

lemma xor_zero_words: "xorBytes (concat (replicate n (wireBytes 0))) = 0"
proof (induction n)
  case 0
  show ?case by (simp add: xorBytes_def)
next
  case (Suc n)
  then show ?case by (simp add: xorBytes_append wire_zero)
qed

lemma crc8_words_zeros: "crc8_words (replicate n 0) c = c"
  by (simp add: crc8_words_eq xor_zero_words)

lemma frameWord_S4: "getFrameWord \<lparr>frame = fromWord 0x010000FF, payload = replicate 255 0\<rparr> = 0x010000FF"
  by (simp add: getFrameWord_def toWord_def fromWord_def)

lemma crc8_S4: "crc8 0x010000FF 0 = 0xFE"
  by (simp add: crc8_def memBytes_def)

lemma writeCrc_S4: "writeCrc \<lparr>frame = fromWord 0x010000FF, payload = replicate 255 0\<rparr> = 0xFE"
  unfolding writeCrc_def MaplePacket.simps crc8_words_zeros frameWord_S4 crc8_S4 ..

text \<open>
  Claim C1. For every packet the checksum that \<open>write\<close> computes is the XOR of all the
  bytes of the frame word and the payload words, four for each word, which for a valid
  packet is \<open>4 * (1 + length)\<close> bytes; in
  every transmit buffer that \<open>write\<close> fills, the word four from the end carries that
  checksum in its low byte; and for the frame word \<open>0x010000FF\<close> with 255 payload words
  of zero the checksum is \<open>0xFE\<close>.
\<close>

theorem C1_crc_is_xor_of_bytes:
  "writeCrc p = xorBytes (packetBytes p)
   \<and> length (packetBytes p) = 4 * (1 + length (payload p))
   \<and> (isValid p \<longrightarrow> length (packetBytes p) = 4 * (1 + unat (length_field (frame p))))
   \<and> (\<forall>cfg dd buf extra. fillWriteBuffer cfg p dd = Inr (buf, extra) \<longrightarrow>
          4 \<le> length buf \<and> (ucast (buf ! (length buf - 4)) :: u8) = xorBytes (packetBytes p))
   \<and> getFrameWord \<lparr>frame = fromWord 0x010000FF, payload = replicate 255 0\<rparr> = 0x010000FF
   \<and> writeCrc \<lparr>frame = fromWord 0x010000FF, payload = replicate 255 0\<rparr> = 0xFE"
proof -
  have trailer: "4 \<le> length buf \<and> (ucast (buf ! (length buf - 4)) :: u8) = xorBytes (packetBytes p)"
    if h: "fillWriteBuffer cfg p dd = Inr (buf, extra)" for cfg dd buf extra
  proof -
    obtain body where b: "buf = body @ endSequence cfg (writeCrc p)"
      using fill_trailer[OF h] by blast
    have len: "length (endSequence cfg (writeCrc p)) = 4"
      by (simp add: endSequence_def)
    have "buf ! (length buf - 4) = hd (endSequence cfg (writeCrc p))"
      by (simp add: b nth_append endSequence_def)
    then show ?thesis
      using len by (simp add: b endSequence_crc writeCrc_eq)
  qed
  have valid: "isValid p \<longrightarrow> length (packetBytes p) = 4 * (1 + unat (length_field (frame p)))"
    by (simp add: length_packetBytes isValid_def)
  show ?thesis
    using trailer valid writeCrc_eq[of p] length_packetBytes[of p] frameWord_S4 writeCrc_S4
    by blast
qed

theorem C1_crc_witness:
  "isValid examplePacket
   \<and> length (packetBytes examplePacket) = 8
   \<and> fillWriteBuffer exampleConfig examplePacket noDelay
     = Inr ([0x48000000, 0x0C200001, 0x01020304, 0x00010029, 0x00030002, 0x00050004, 0x00070006], 0)
   \<and> 4 \<le> length [0x48000000, 0x0C200001, 0x01020304, 0x00010029, 0x00030002, 0x00050004, 0x00070006 :: u32]
   \<and> (ucast (0x00010029 :: u32) :: u8) = xorBytes (packetBytes examplePacket)
   \<and> xorBytes (packetBytes examplePacket) = 0x29"
proof -
  have fill: "fillWriteBuffer exampleConfig examplePacket noDelay
     = Inr ([0x48000000, 0x0C200001, 0x01020304, 0x00010029, 0x00030002, 0x00050004, 0x00070006], 0)"
    by (simp add: fillWriteBuffer_def exampleConfig_def examplePacket_def noDelay_def
        getNumTotalBits_def flipWordBytes_def getFrameWord_def toWord_def fromWord_def
        endSequence_def writeCrc_def crc8_words_def crc8_def memBytes_def)
  have x: "xorBytes (packetBytes examplePacket) = 0x29"
    by (simp add: packetBytes_def examplePacket_def getFrameWord_def toWord_def fromWord_def
        wireBytes_def xorBytes_def)
  from C1_crc_is_xor_of_bytes[of examplePacket] fill
  have "4 \<le> length [0x48000000, 0x0C200001, 0x01020304, 0x00010029, 0x00030002, 0x00050004, 0x00070006 :: u32]
        \<and> (ucast ([0x48000000, 0x0C200001, 0x01020304, 0x00010029, 0x00030002, 0x00050004, 0x00070006 :: u32]
               ! (length [0x48000000, 0x0C200001, 0x01020304, 0x00010029, 0x00030002, 0x00050004, 0x00070006 :: u32] - 4)) :: u8)
            = xorBytes (packetBytes examplePacket)"
    by blast
  moreover have v: "isValid examplePacket"
    by (simp add: isValid_def examplePacket_def fromWord_def)
  moreover have "length (packetBytes examplePacket) = 8"
    using C1_crc_is_xor_of_bytes[of examplePacket] v
    by (simp add: examplePacket_def fromWord_def)
  ultimately show ?thesis using fill x by simp
qed

section \<open>Properties of \<open>processEvents\<close>\<close>

subsection \<open>Phase \<open>READ_COMPLETE\<close>\<close>

text \<open>
  The hypotheses on the hardware below are what the C++ takes for granted: the DMA
  residual never exceeds the size of the read buffer, the buffer size fits 32 bits,
  and \<open>mLastRead\<close> has room for the words copied into it.
\<close>

lemma dmaWordsRead_unat:
  assumes "unat (rxTransferCount s) \<le> length (mReadBuffer s)" and "length (mReadBuffer s) < 2 ^ 32"
  shows "unat (dmaWordsRead s) = length (mReadBuffer s) - unat (rxTransferCount s)"
proof -
  have l: "unat (of_nat (length (mReadBuffer s)) :: u32) = length (mReadBuffer s)"
    using assms(2) by (simp add: unat_of_nat)
  have "rxTransferCount s \<le> of_nat (length (mReadBuffer s))"
    using assms(1) l by (simp add: word_le_nat_alt)
  then show ?thesis
    unfolding dmaWordsRead_def using l by (simp add: unat_sub)
qed

lemma word_gt1_pred:
  fixes n :: u32
  assumes "1 < n"
  shows "unat (n - 1) = unat n - 1" and "unat (n - 2) = unat n - 2" and "2 \<le> unat n"
proof -
  have a: "1 < unat n" using assms by (simp add: word_less_nat_alt)
  then show "2 \<le> unat n" by simp
  have "(1::u32) \<le> n" using assms by simp
  then show "unat (n - 1) = unat n - 1" by (simp add: unat_sub)
  have "(2::u32) \<le> n" using a by (simp add: word_le_nat_alt)
  then show "unat (n - 2) = unat n - 2" by (simp add: unat_sub)
qed

lemma processEvents_READ_COMPLETE:
  assumes ph: "mCurrentPhase s = READ_COMPLETE"
    and tc: "unat (rxTransferCount s) \<le> length (mReadBuffer s)"
    and sz: "length (mReadBuffer s) < 2 ^ 32"
    and cap: "unat (dmaWordsRead s) \<le> Suc (length (mLastRead s))"
  shows "processEvents cfg now s =
     (let n = dmaWordsRead s; status = defaultStatus\<lparr>phase := READ_COMPLETE\<rparr>;
          lastRead = take (unat n - 1) (mReadBuffer s) @ drop (unat n - 1) (mLastRead s) in
      if n < 2 \<or> n - 2 < mReadBuffer s ! 0 AND 0xFF then
        Inr (status\<lparr>phase := READ_FAILED, failureReason := Some MISSING_DATA\<rparr>, s\<lparr>mCurrentPhase := IDLE\<rparr>)
      else if ucast (crc8_words (take (unat n - 1) (mReadBuffer s)) 0) \<noteq> mReadBuffer s ! (unat n - 1) then
        Inr (status\<lparr>phase := READ_FAILED, failureReason := Some CRC_INVALID\<rparr>,
             s\<lparr>mLastRead := lastRead, mCurrentPhase := IDLE\<rparr>)
      else
        Inr (status\<lparr>readBuffer := Some lastRead, readBufferLen := n - 1\<rparr>,
             s\<lparr>mLastRead := lastRead, mCurrentPhase := IDLE\<rparr>))"
proof (cases "1 < dmaWordsRead s")
  case False
  then have "dmaWordsRead s < 2"
    by (simp add: word_less_nat_alt)
  with False ph show ?thesis
    by (simp add: processEvents_def Let_def)
next
  case True
  note p = word_gt1_pred[OF True]
  have un: "unat (dmaWordsRead s) \<le> length (mReadBuffer s)"
    using dmaWordsRead_unat[OF tc sz] by simp
  have n2: "\<not> dmaWordsRead s < 2"
    using p(3) by (simp add: word_less_nat_alt)
  have r0: "readWord (mReadBuffer s) 0 = Inr (mReadBuffer s ! 0)"
    using un p(3) by (cases "mReadBuffer s") (simp_all add: readWord_def)
  have rl: "readWord (mReadBuffer s) (dmaWordsRead s - 1) = Inr (mReadBuffer s ! (unat (dmaWordsRead s) - 1))"
    using un p by (auto simp: readWord_def)
  have cp: "wordCpy (mLastRead s) (mReadBuffer s) (dmaWordsRead s - 1)
      = Inr (take (unat (dmaWordsRead s) - 1) (mReadBuffer s) @ drop (unat (dmaWordsRead s) - 1) (mLastRead s))"
    using un p cap by (auto simp: wordCpy_def)
  have tk: "take (unat (dmaWordsRead s) - 1) (take (unat (dmaWordsRead s) - 1) (mReadBuffer s) @ drop (unat (dmaWordsRead s) - 1) (mLastRead s))
     = take (unat (dmaWordsRead s) - 1) (mReadBuffer s)"
    using un by simp
  have mn: "min (length (mReadBuffer s)) (unat (dmaWordsRead s) - Suc 0) = unat (dmaWordsRead s) - Suc 0"
    using un by simp
  show ?thesis
    using True n2 ph
    by (simp add: processEvents_def Let_def r0 rl cp p(1) mn not_le)
qed

text \<open>
  Claim C2. In phase \<open>READ_COMPLETE\<close>, \<open>processEvents\<close> returns \<open>READ_FAILED\<close> with
  \<open>MISSING_DATA\<close> if fewer than two words were received or the length field of the frame
  word exceeds the words received less two; otherwise \<open>READ_FAILED\<close> with \<open>CRC_INVALID\<close>
  if the recomputed checksum differs from the last word received; otherwise a status in
  phase \<open>READ_COMPLETE\<close> that carries the read buffer (the copy in \<open>mLastRead\<close>) and its
  length, the words received less the checksum word. In every case the driver's phase
  becomes \<open>IDLE\<close>. The closed instance is the read of exactly one word (scenario S5).
\<close>

theorem C2_read_complete_validation:
  assumes "mCurrentPhase s = READ_COMPLETE"
    and "unat (rxTransferCount s) \<le> length (mReadBuffer s)"
    and "length (mReadBuffer s) < 2 ^ 32"
    and "unat (dmaWordsRead s) \<le> Suc (length (mLastRead s))"
  shows "\<exists>st s'. processEvents cfg now s = Inr (st, s') \<and> mCurrentPhase s' = IDLE \<and>
           (if dmaWordsRead s < 2 \<or> dmaWordsRead s - 2 < mReadBuffer s ! 0 AND 0xFF
            then phase st = READ_FAILED \<and> failureReason st = Some MISSING_DATA
            else if ucast (crc8_words (take (unat (dmaWordsRead s) - 1) (mReadBuffer s)) 0)
                      \<noteq> mReadBuffer s ! (unat (dmaWordsRead s) - 1)
            then phase st = READ_FAILED \<and> failureReason st = Some CRC_INVALID
            else phase st = READ_COMPLETE \<and> failureReason st = None
                 \<and> readBufferLen st = dmaWordsRead s - 1
                 \<and> readBuffer st = Some (mLastRead s')
                 \<and> take (unat (dmaWordsRead s) - 1) (mLastRead s')
                       = take (unat (dmaWordsRead s) - 1) (mReadBuffer s))"
proof -
  have un: "unat (dmaWordsRead s) \<le> length (mReadBuffer s)"
    using dmaWordsRead_unat[OF assms(2,3)] by simp
  show ?thesis
    unfolding processEvents_READ_COMPLETE[OF assms]
    using un by (simp add: Let_def defaultStatus_def)
qed

theorem C2_short_read_witness:
  "mCurrentPhase shortReadBus = READ_COMPLETE \<and> dmaWordsRead shortReadBus = 1
   \<and> (\<exists>st s'. processEvents exampleConfig 1000 shortReadBus = Inr (st, s')
         \<and> mCurrentPhase s' = IDLE
         \<and> phase st = READ_FAILED \<and> failureReason st = Some MISSING_DATA)"
proof -
  have d: "dmaWordsRead shortReadBus = 1"
    by (simp add: dmaWordsRead_def shortReadBus_def exampleBus_def)
  have h: "mCurrentPhase shortReadBus = READ_COMPLETE"
    "unat (rxTransferCount shortReadBus) \<le> length (mReadBuffer shortReadBus)"
    "length (mReadBuffer shortReadBus) < 2 ^ 32"
    "unat (dmaWordsRead shortReadBus) \<le> Suc (length (mLastRead shortReadBus))"
    unfolding d by (simp_all add: shortReadBus_def exampleBus_def)
  show ?thesis
    using C2_read_complete_validation[OF h, of exampleConfig 1000] h(1) d by simp
qed

text \<open>
  The two later branches on concrete reads: the three-word read above is accepted, and
  the same read with the checksum word \<open>0x120\<close> is refused, since the checksum byte is
  compared with the whole last word.
\<close>

lemma crc8_words_example: "crc8_words [0x05002001, 0x01020304] 0 = 0x20"
  by (simp add: crc8_words_def crc8_def memBytes_def)

lemma goodReadBus_facts:
  "mCurrentPhase goodReadBus = READ_COMPLETE"
  "length (mReadBuffer goodReadBus) = 258"
  "length (mLastRead goodReadBus) = 258"
  "rxTransferCount goodReadBus = 255"
  "dmaWordsRead goodReadBus = 3"
  "mReadBuffer goodReadBus ! 0 = 0x05002001"
  "mReadBuffer goodReadBus ! 2 = 0x20"
  "take 2 (mReadBuffer goodReadBus) = [0x05002001, 0x01020304]"
  by (simp_all add: goodReadBus_def exampleBus_def dmaWordsRead_def)

lemma processEvents_good_read:
  "\<exists>st s'. processEvents exampleConfig 2000 goodReadBus = Inr (st, s')
      \<and> phase st = READ_COMPLETE \<and> readBufferLen st = 2
      \<and> map_option (take 2) (readBuffer st) = Some [0x05002001, 0x01020304]
      \<and> mCurrentPhase s' = IDLE"
proof -
  have h: "unat (rxTransferCount goodReadBus) \<le> length (mReadBuffer goodReadBus)"
    "length (mReadBuffer goodReadBus) < 2 ^ 32"
    "unat (dmaWordsRead goodReadBus) \<le> Suc (length (mLastRead goodReadBus))"
    by (simp_all add: goodReadBus_facts)
  have c: "\<not> (dmaWordsRead goodReadBus < 2
              \<or> dmaWordsRead goodReadBus - 2 < mReadBuffer goodReadBus ! 0 AND 0xFF)"
    by (simp add: goodReadBus_facts word_less_nat_alt)
  show ?thesis
    unfolding processEvents_READ_COMPLETE[OF goodReadBus_facts(1) h]
    using c by (simp add: Let_def goodReadBus_facts crc8_words_example defaultStatus_def)
qed

lemma processEvents_bad_crc:
  "\<exists>st s'. processEvents exampleConfig 2000
              (goodReadBus\<lparr>mReadBuffer := [0x05002001, 0x01020304, 0x00000120] @ replicate 255 0\<rparr>)
            = Inr (st, s')
      \<and> phase st = READ_FAILED \<and> failureReason st = Some CRC_INVALID
      \<and> mCurrentPhase s' = IDLE"
  by (simp add: processEvents_def Let_def goodReadBus_def exampleBus_def dmaWordsRead_def
      readWord_def wordCpy_def crc8_words_example defaultStatus_def word_less_nat_alt
      word_le_nat_alt)

subsection \<open>Phase \<open>READ_IN_PROGRESS\<close>\<close>

text \<open>
  Claim C4, as the spec states it, ends: "otherwise the last-seen residual and timestamp
  are updated". The source updates them only when the residual has changed. When the
  residual is unchanged and the inter-word timeout has not yet passed, nothing is
  written: at time 101, one microsecond after the last word, the timestamp stays 100.
\<close>

theorem C4_timestamp_counterexample:
  "processEvents exampleConfig 101 readingBus
     = Inr (defaultStatus\<lparr>phase := READ_IN_PROGRESS\<rparr>, readingBus)
   \<and> mLastReceivedWordTimeUs readingBus = 100
   \<and> mLastReceivedWordTimeUs readingBus \<noteq> 101"
  by (simp add: processEvents_def Let_def defaultStatus_def readingBus_def exampleBus_def
      exampleConfig_def word_le_nat_alt word_less_nat_alt)

text \<open>
  Claim C4, amended. In phase \<open>READ_IN_PROGRESS\<close> the outcome of \<open>processEvents\<close> does
  not depend on \<open>mProcKillTime\<close>. The read fails with \<open>BUFFER_OVERFLOW\<close> when the residual
  is 0, and with \<open>TIMEOUT\<close> when the residual equals the last one seen, the time is
  later than the time of the last word and their difference is at least the inter-word
  timeout. Otherwise the phase stays \<open>READ_IN_PROGRESS\<close>: if the residual differs from
  the last one seen, the residual and the timestamp are updated; if it is the same, the
  driver is left as it was.
\<close>

theorem C4_read_in_progress:
  assumes "mCurrentPhase s = READ_IN_PROGRESS"
  shows "processEvents cfg now s =
           (if rxTransferCount s = 0 then
              Inr (defaultStatus\<lparr>phase := READ_FAILED, failureReason := Some BUFFER_OVERFLOW\<rparr>,
                   s\<lparr>mCurrentPhase := IDLE\<rparr>)
            else if rxTransferCount s = mLastReadTransferCount s
                    \<and> mLastReceivedWordTimeUs s < now
                    \<and> MAPLE_INTER_WORD_READ_TIMEOUT_US cfg \<le> now - mLastReceivedWordTimeUs s then
              Inr (defaultStatus\<lparr>phase := READ_FAILED, failureReason := Some TIMEOUT\<rparr>,
                   s\<lparr>smIn := SM_IN_STOPPED, mCurrentPhase := IDLE\<rparr>)
            else if rxTransferCount s = mLastReadTransferCount s then
              Inr (defaultStatus\<lparr>phase := READ_IN_PROGRESS\<rparr>, s)
            else
              Inr (defaultStatus\<lparr>phase := READ_IN_PROGRESS\<rparr>,
                   s\<lparr>mLastReadTransferCount := rxTransferCount s,
                     mLastReceivedWordTimeUs := now\<rparr>))
       \<and> processEvents cfg now (s\<lparr>mProcKillTime := k\<rparr>) =
           map_sum id (\<lambda>(st, s'). (st, s'\<lparr>mProcKillTime := k\<rparr>)) (processEvents cfg now s)"
  using assms by (auto simp add: processEvents_def Let_def defaultStatus_def)

theorem C4_read_in_progress_witness:
  "mCurrentPhase readingBus = READ_IN_PROGRESS
   \<and> processEvents exampleConfig 400 readingBus =
        Inr (defaultStatus\<lparr>phase := READ_FAILED, failureReason := Some TIMEOUT\<rparr>,
             readingBus\<lparr>smIn := SM_IN_STOPPED, mCurrentPhase := IDLE\<rparr>)
   \<and> processEvents exampleConfig 400 (readingBus\<lparr>rxTransferCount := 249\<rparr>) =
        Inr (defaultStatus\<lparr>phase := READ_IN_PROGRESS\<rparr>,
             readingBus\<lparr>rxTransferCount := 249, mLastReadTransferCount := 249,
                          mLastReceivedWordTimeUs := 400\<rparr>)"
proof -
  have a: "mCurrentPhase readingBus = READ_IN_PROGRESS"
    "mCurrentPhase (readingBus\<lparr>rxTransferCount := 249\<rparr>) = READ_IN_PROGRESS"
    by (simp_all add: readingBus_def exampleBus_def)
  show ?thesis
    using C4_read_in_progress[OF a(1), of exampleConfig 400, THEN conjunct1]
      C4_read_in_progress[OF a(2), of exampleConfig 400, THEN conjunct1] a(1)
    by (simp add: readingBus_def exampleBus_def exampleConfig_def word_le_nat_alt word_less_nat_alt)
qed

subsection \<open>Kill time\<close>

text \<open>
  Claim C5. When \<open>processEvents\<close> is called at or after \<open>mProcKillTime\<close>, a driver
  waiting for the start of a read returns \<open>READ_FAILED\<close> with \<open>TIMEOUT\<close> (the receiving
  state machine is stopped), and a driver that is writing returns \<open>WRITE_FAILED\<close> with
  \<open>TIMEOUT\<close>: both state machines are stopped and the direction pin, where the driver
  has one (\<open>mDirPin >= 0\<close>), is put to the input level. In both cases the phase
  becomes \<open>IDLE\<close>.
\<close>

theorem C5_kill_time_expiry:
  assumes "mProcKillTime s \<le> now"
  shows "(mCurrentPhase s = WAITING_FOR_READ_START \<longrightarrow>
            processEvents cfg now s =
              Inr (defaultStatus\<lparr>phase := READ_FAILED, failureReason := Some TIMEOUT\<rparr>,
                   s\<lparr>smIn := SM_IN_STOPPED, mCurrentPhase := IDLE\<rparr>))
       \<and> (mCurrentPhase s = WRITE_IN_PROGRESS \<longrightarrow>
            (\<exists>s'. processEvents cfg now s =
                     Inr (defaultStatus\<lparr>phase := WRITE_FAILED, failureReason := Some TIMEOUT\<rparr>, s')
                  \<and> mCurrentPhase s' = IDLE \<and> \<not> smOutRunning s' \<and> smIn s' = SM_IN_STOPPED
                  \<and> (0 \<le> mDirPin s \<longrightarrow> dirPinLevel s' = (\<not> mDirOutHigh s))))"
  using assms by (simp add: processEvents_def Let_def defaultStatus_def)

theorem C5_kill_time_witness:
  "mProcKillTime waitingBus \<le> 5000
   \<and> processEvents exampleConfig 5000 waitingBus =
        Inr (defaultStatus\<lparr>phase := READ_FAILED, failureReason := Some TIMEOUT\<rparr>,
             waitingBus\<lparr>smIn := SM_IN_STOPPED, mCurrentPhase := IDLE\<rparr>)
   \<and> mProcKillTime writingBus \<le> 6000
   \<and> (\<exists>s'. processEvents exampleConfig 6000 writingBus =
               Inr (defaultStatus\<lparr>phase := WRITE_FAILED, failureReason := Some TIMEOUT\<rparr>, s')
            \<and> mCurrentPhase s' = IDLE \<and> \<not> smOutRunning s' \<and> smIn s' = SM_IN_STOPPED
            \<and> dirPinLevel s' = False)"
proof -
  have a: "mProcKillTime waitingBus \<le> 5000" "mCurrentPhase waitingBus = WAITING_FOR_READ_START"
    by (simp_all add: waitingBus_def exampleBus_def word_le_nat_alt)
  have b: "mProcKillTime writingBus \<le> 6000" "mCurrentPhase writingBus = WRITE_IN_PROGRESS"
    "0 \<le> mDirPin writingBus" "mDirOutHigh writingBus"
    by (simp_all add: writingBus_def exampleBus_def word_le_nat_alt)
  show ?thesis
    using C5_kill_time_expiry[OF a(1), of exampleConfig] C5_kill_time_expiry[OF b(1), of exampleConfig]
      a b by simp
qed


section \<open>Properties of \<open>write\<close>\<close>

lemma lineCheckLoop_low:
  assumes "\<forall>(g, c) \<in> set pre. g AND maskAB = maskAB \<and> c < targetTime"
    and "gpio AND maskAB \<noteq> maskAB"
  shows "lineCheckLoop maskAB targetTime (pre @ (gpio, clock) # rest) = Inr False"
  using assms by (induction pre) auto

lemma lineCheckLoop_open:
  assumes "\<forall>(g, c) \<in> set pre. g AND maskAB = maskAB \<and> c < targetTime"
    and "gpio AND maskAB = maskAB" and "\<not> clock < targetTime"
  shows "lineCheckLoop maskAB targetTime (pre @ (gpio, clock) # rest) = Inr True"
  using assms by (induction pre) auto

lemma fillWriteBuffer_ok:
  assumes "delayUs dd = 0 \<or> of_nat (length (payload p)) + 1 \<le> firstWordChunk dd
           \<or> (firstWordChunk dd \<noteq> 0 \<and> secondWordChunk dd \<noteq> 0 \<and> NS_PER_LOOP cfg \<noteq> 0)"
  shows "\<exists>buf extra. fillWriteBuffer cfg p dd = Inr (buf, extra)"
  using assms by (auto simp: fillWriteBuffer_def Let_def)

lemma bus_write_phase:
  assumes "bus_write cfg env p a t dd s = Inr (ok, s')"
  shows "if ok then mCurrentPhase s = IDLE \<and> mCurrentPhase s' = WRITE_IN_PROGRESS
         else mCurrentPhase s' = mCurrentPhase s"
  using assms
  by (auto simp: bus_write_def isBusy_def Let_def split: if_splits sum.splits prod.splits)

text \<open>
  Claim C6. \<open>write\<close> returns false, and changes nothing, whenever the phase is not
  \<open>IDLE\<close>. Whenever it returns false the phase is what it was, and when it returns true
  the phase was \<open>IDLE\<close> and has become \<open>WRITE_IN_PROGRESS\<close>. When the driver is idle, the
  asserts on the delay definition hold, and the line check reads a sample with a data
  line low after samples that were all high and all before the end of the window, then
  \<open>write\<close> returns false and the phase is still \<open>IDLE\<close>.
\<close>

theorem C6_write_guards:
  "(mCurrentPhase s \<noteq> IDLE \<longrightarrow> bus_write cfg env p a t dd s = Inr (False, s))
   \<and> (\<forall>s'. bus_write cfg env p a t dd s = Inr (False, s') \<longrightarrow> mCurrentPhase s' = mCurrentPhase s)
   \<and> (\<forall>s'. bus_write cfg env p a t dd s = Inr (True, s') \<longrightarrow>
          mCurrentPhase s = IDLE \<and> mCurrentPhase s' = WRITE_IN_PROGRESS)
   \<and> (mCurrentPhase s = IDLE
        \<and> (delayUs dd = 0 \<or> of_nat (length (payload p)) + 1 \<le> firstWordChunk dd
             \<or> (firstWordChunk dd \<noteq> 0 \<and> secondWordChunk dd \<noteq> 0 \<and> NS_PER_LOOP cfg \<noteq> 0))
        \<and> 0 < MAPLE_OPEN_LINE_CHECK_TIME_US cfg
        \<and> lineSamples env = pre @ (gpio, clock) # rest
        \<and> (\<forall>(g, c) \<in> set pre. g AND mMaskAB s = mMaskAB s
               \<and> c < lineCheckClock env + MAPLE_OPEN_LINE_CHECK_TIME_US cfg + 1)
        \<and> gpio AND mMaskAB s \<noteq> mMaskAB s
        \<longrightarrow> (\<exists>s'. bus_write cfg env p a t dd s = Inr (False, s') \<and> mCurrentPhase s' = IDLE))"
proof (intro conjI allI impI)
  assume "mCurrentPhase s \<noteq> IDLE"
  then show "bus_write cfg env p a t dd s = Inr (False, s)"
    by (simp add: bus_write_def isBusy_def)
next
  fix s' assume "bus_write cfg env p a t dd s = Inr (False, s')"
  from bus_write_phase[OF this] show "mCurrentPhase s' = mCurrentPhase s" by simp
next
  fix s' assume w: "bus_write cfg env p a t dd s = Inr (True, s')"
  from bus_write_phase[OF w] show "mCurrentPhase s = IDLE" by simp
  from bus_write_phase[OF w] show "mCurrentPhase s' = WRITE_IN_PROGRESS" by simp
next
  assume h: "mCurrentPhase s = IDLE
        \<and> (delayUs dd = 0 \<or> of_nat (length (payload p)) + 1 \<le> firstWordChunk dd
             \<or> (firstWordChunk dd \<noteq> 0 \<and> secondWordChunk dd \<noteq> 0 \<and> NS_PER_LOOP cfg \<noteq> 0))
        \<and> 0 < MAPLE_OPEN_LINE_CHECK_TIME_US cfg
        \<and> lineSamples env = pre @ (gpio, clock) # rest
        \<and> (\<forall>(g, c) \<in> set pre. g AND mMaskAB s = mMaskAB s
               \<and> c < lineCheckClock env + MAPLE_OPEN_LINE_CHECK_TIME_US cfg + 1)
        \<and> gpio AND mMaskAB s \<noteq> mMaskAB s"
  then obtain buf extra where f: "fillWriteBuffer cfg p dd = Inr (buf, extra)"
    using fillWriteBuffer_ok[of dd p cfg] by blast
  have lc: "lineCheckLoop (mMaskAB s) (lineCheckClock env + MAPLE_OPEN_LINE_CHECK_TIME_US cfg + 1)
              (lineSamples env) = Inr False"
    using h lineCheckLoop_low[of pre "mMaskAB s"] by simp
  show "\<exists>s'. bus_write cfg env p a t dd s = Inr (False, s') \<and> mCurrentPhase s' = IDLE"
    using h f lc by (simp add: bus_write_def isBusy_def lineCheck_def Let_def)
qed


theorem C6_write_guards_witness:
  "bus_write exampleConfig lowLineEnv examplePacket False 0 noDelay writingBus
     = Inr (False, writingBus)
   \<and> (\<exists>s'. bus_write exampleConfig lowLineEnv examplePacket False 0 noDelay exampleBus
               = Inr (False, s') \<and> mCurrentPhase s' = IDLE)
   \<and> (\<exists>s'. bus_write exampleConfig openLineEnv examplePacket False 0 noDelay exampleBus
               = Inr (True, s') \<and> mCurrentPhase s' = WRITE_IN_PROGRESS)"
proof -
  have busy: "mCurrentPhase writingBus \<noteq> IDLE"
    by (simp add: writingBus_def exampleBus_def)
  have low: "mCurrentPhase exampleBus = IDLE
        \<and> (delayUs noDelay = 0 \<or> of_nat (length (payload examplePacket)) + 1 \<le> firstWordChunk noDelay
             \<or> (firstWordChunk noDelay \<noteq> 0 \<and> secondWordChunk noDelay \<noteq> 0
                 \<and> NS_PER_LOOP exampleConfig \<noteq> 0))
        \<and> 0 < MAPLE_OPEN_LINE_CHECK_TIME_US exampleConfig
        \<and> lineSamples lowLineEnv = [(0x3, 1001)] @ (0x1, 1002) # [(0x3, 1003)]
        \<and> (\<forall>(g, c) \<in> set [(0x3 :: u32, 1001 :: u64)]. g AND mMaskAB exampleBus = mMaskAB exampleBus
               \<and> c < lineCheckClock lowLineEnv + MAPLE_OPEN_LINE_CHECK_TIME_US exampleConfig + 1)
        \<and> (0x1 :: u32) AND mMaskAB exampleBus \<noteq> mMaskAB exampleBus"
    by (simp add: exampleBus_def noDelay_def exampleConfig_def lowLineEnv_def word_less_nat_alt)
  have fill: "fillWriteBuffer exampleConfig examplePacket noDelay
     = Inr ([0x48000000, 0x0C200001, 0x01020304, 0x00010029, 0x00030002, 0x00050004, 0x00070006], 0)"
    by (simp add: fillWriteBuffer_def exampleConfig_def examplePacket_def noDelay_def
        getNumTotalBits_def flipWordBytes_def getFrameWord_def toWord_def fromWord_def
        endSequence_def writeCrc_def crc8_words_def crc8_def memBytes_def)
  have chk: "lineCheck exampleConfig
               (exampleBus\<lparr>txDma := None, rxDmaArmed := False,
                  mWriteBuffer := [0x48000000, 0x0C200001, 0x01020304, 0x00010029, 0x00030002,
                                   0x00050004, 0x00070006]\<rparr>) openLineEnv = Inr True"
    by (simp add: lineCheck_def exampleConfig_def exampleBus_def openLineEnv_def word_less_nat_alt)
  have "\<exists>s'. bus_write exampleConfig openLineEnv examplePacket False 0 noDelay exampleBus
               = Inr (True, s')"
    by (simp add: bus_write_def isBusy_def fill chk Let_def) (simp add: exampleBus_def)
  then obtain s1 where
    s1: "bus_write exampleConfig openLineEnv examplePacket False 0 noDelay exampleBus = Inr (True, s1)"
    by blast
  note c1 = C6_write_guards[where s = writingBus and cfg = exampleConfig and env = lowLineEnv
              and p = examplePacket and a = False and t = 0 and dd = noDelay]
  note c2 = C6_write_guards[where s = exampleBus and cfg = exampleConfig and env = lowLineEnv
              and p = examplePacket and a = False and t = 0 and dd = noDelay
              and pre = "[(0x3, 1001)]" and gpio = "0x1" and clock = 1002
              and rest = "[(0x3, 1003)]"]
  note c3 = C6_write_guards[where s = exampleBus and cfg = exampleConfig and env = openLineEnv
              and p = examplePacket and a = False and t = 0 and dd = noDelay]
  have r1: "bus_write exampleConfig lowLineEnv examplePacket False 0 noDelay writingBus
     = Inr (False, writingBus)"
    using c1 busy by blast
  have r2: "\<exists>s'. bus_write exampleConfig lowLineEnv examplePacket False 0 noDelay exampleBus
               = Inr (False, s') \<and> mCurrentPhase s' = IDLE"
    using c2 low by blast
  have r3: "mCurrentPhase s1 = WRITE_IN_PROGRESS"
    using c3 s1 by blast
  show ?thesis using r1 r2 r3 s1 by blast
qed


section \<open>Properties of the cadence helper\<close>

text \<open>
  The same computation on natural numbers, where nothing wraps around: the value the
  helper would return if its result always fitted 64 bits. It serves the proofs only.
\<close>

definition leastOnCadence :: "nat \<Rightarrow> nat \<Rightarrow> nat \<Rightarrow> nat" where
  "leastOnCadence currentTime period offset =
     (if offset \<le> currentTime
      then offset + ((currentTime - offset) div period + 1) * period
      else offset - ((offset - currentTime - 1) div period) * period)"

lemma cadence_after:
  assumes "0 < period"
  shows "currentTime < leastOnCadence currentTime period offset"
proof (cases "offset \<le> currentTime")
  case True
  have "currentTime - offset < period + ((currentTime - offset) div period) * period"
    using assms by (rule dividend_less_div_times)
  then show ?thesis using True by (simp add: leastOnCadence_def)
next
  case False
  have "((offset - currentTime - 1) div period) * period \<le> offset - currentTime - 1"
    by simp
  then have "currentTime < offset - ((offset - currentTime - 1) div period) * period"
    using False by linarith
  then show ?thesis using False by (simp add: leastOnCadence_def)
qed

lemma cadence_on:
  "(int (leastOnCadence currentTime period offset) - int offset) mod int period = 0"
proof (cases "offset \<le> currentTime")
  case True
  then show ?thesis by (simp add: leastOnCadence_def)
next
  case False
  have le: "((offset - currentTime - 1) div period) * period \<le> offset"
    by (meson diff_le_self div_times_less_eq_dividend le_trans)
  have "int (offset - ((offset - currentTime - 1) div period) * period) - int offset
        = - int ((offset - currentTime - 1) div period) * int period"
    using le by (simp add: of_nat_diff)
  then show ?thesis using False by (simp add: leastOnCadence_def)
qed

lemma cadence_least:
  assumes p: "0 < period" and u: "currentTime < u"
    and on: "(int u - int offset) mod int period = 0"
  shows "leastOnCadence currentTime period offset \<le> u"
proof -
  from on have "int period dvd int u - int offset"
    by (simp add: mod_eq_0_iff_dvd)
  then obtain k :: int where k: "int u - int offset = k * int period"
    by (metis dvd_def mult.commute)
  show ?thesis
  proof (cases "offset \<le> currentTime")
    case True
    have "int period * int ((currentTime - offset) div period) \<le> int (currentTime - offset)"
      by (metis of_nat_mult of_nat_le_iff mult.commute div_times_less_eq_dividend)
    also have "\<dots> < int u - int offset" using True u by simp
    finally have "int ((currentTime - offset) div period) * int period < k * int period"
      using k by (simp add: mult.commute)
    then have "int ((currentTime - offset) div period) < k"
      using p by simp
    then have "(int ((currentTime - offset) div period) + 1) * int period \<le> k * int period"
      using p by (simp add: mult_right_mono)
    then have "int offset + (int ((currentTime - offset) div period) + 1) * int period \<le> int u"
      using k by simp
    then have "int (offset + ((currentTime - offset) div period + 1) * period) \<le> int u"
      by (simp add: algebra_simps)
    then have "offset + ((currentTime - offset) div period + 1) * period \<le> u"
      by (simp only: of_nat_le_iff)
    then show ?thesis using True by (simp add: leastOnCadence_def)
  next
    case False
    show ?thesis
    proof (cases "offset \<le> u")
      case True
      then show ?thesis using False by (simp add: leastOnCadence_def)
    next
      case uo: False
      let ?e = "offset - currentTime - 1"
      have kpos: "0 \<le> - k"
      proof (rule ccontr)
        assume "\<not> 0 \<le> - k"
        then have "0 < k" by simp
        then have "0 < k * int period" using p by simp
        then show False using k uo by simp
      qed
      define m where "m = nat (- k)"
      have "int offset = int u + int m * int period"
        using k kpos by (simp add: m_def)
      then have "int offset = int (u + m * period)"
        by simp
      then have ou: "offset = u + m * period"
        by (simp only: of_nat_eq_iff)
      then have "m * period \<le> ?e"
        using u by simp
      then have "m \<le> ?e div period"
        using p by (simp add: less_eq_div_iff_mult_less_eq)
      then have "m * period \<le> (?e div period) * period"
        by (rule mult_le_mono1)
      then have "offset - (?e div period) * period \<le> u"
        using ou by linarith
      then show ?thesis using False by (simp add: leastOnCadence_def)
    qed
  qed
qed
lemma cadence_le_period:
  assumes "0 < period"
  shows "leastOnCadence currentTime period offset \<le> currentTime + period"
proof (cases "offset \<le> currentTime")
  case True
  have "(currentTime - offset) div period * period \<le> currentTime - offset"
    by simp
  moreover have "((currentTime - offset) div period + 1) * period
                   = (currentTime - offset) div period * period + period"
    by simp
  ultimately have "offset + ((currentTime - offset) div period + 1) * period
                     \<le> currentTime + period"
    using True by linarith
  then show ?thesis using True by (simp add: leastOnCadence_def)
next
  case False
  have "offset - currentTime - 1 < period + (offset - currentTime - 1) div period * period"
    using assms by (rule dividend_less_div_times)
  then have "offset - (offset - currentTime - 1) div period * period \<le> currentTime + period"
    using False by linarith
  then show ?thesis using False by (simp add: leastOnCadence_def)
qed

text \<open>
  Where the value on natural numbers fits 64 bits, the helper returns it.
\<close>

lemma unat_computeNextTimeCadence:
  assumes p: "0 < period"
    and fits: "leastOnCadence (unat currentTime) (unat period) (unat offset) < 2 ^ 64"
  shows "unat (computeNextTimeCadence currentTime period offset)
           = leastOnCadence (unat currentTime) (unat period) (unat offset)"
proof (cases "offset \<le> currentTime")
  case True
  let ?q = "(unat currentTime - unat offset) div unat period"
  have le: "unat offset \<le> unat currentTime"
    using True by (simp add: word_le_nat_alt)
  have P: "0 < unat period"
    using p by (simp add: word_less_nat_alt)
  have f: "unat offset + (?q + 1) * unat period < 2 ^ 64"
    using fits le by (simp add: leastOnCadence_def)
  have "(?q + 1) * 1 \<le> (?q + 1) * unat period"
    by (rule mult_le_mono2) (use P in simp)
  then have q1: "?q + 1 \<le> (?q + 1) * unat period"
    by simp
  have uq: "unat ((currentTime - offset) div period) = ?q"
    using True by (simp add: unat_div unat_sub)
  have uq1: "unat ((currentTime - offset) div period + 1) = ?q + 1"
    using uq q1 f by (simp add: unat_add_lem[THEN iffD1])
  have um: "unat (((currentTime - offset) div period + 1) * period) = (?q + 1) * unat period"
    using uq1 f by (simp add: unat_mult_lem[THEN iffD1])
  have "unat (offset + ((currentTime - offset) div period + 1) * period)
          = unat offset + (?q + 1) * unat period"
    using um f by (simp add: unat_add_lem[THEN iffD1])
  then show ?thesis
    using True le by (simp add: computeNextTimeCadence_def leastOnCadence_def)
next
  case False
  let ?q = "(unat offset - unat currentTime - 1) div unat period"
  have lt: "unat currentTime < unat offset"
    using False by (simp add: word_le_nat_alt)
  have s1: "unat (offset - currentTime) = unat offset - unat currentTime"
    using False by (simp add: unat_sub)
  have "(1::u64) \<le> offset - currentTime"
    using s1 lt by (simp add: word_le_nat_alt)
  then have s2: "unat (offset - currentTime - 1) = unat offset - unat currentTime - 1"
    using s1 by (simp add: unat_sub)
  have uq: "unat ((offset - currentTime - 1) div period) = ?q"
    using s2 by (simp add: unat_div)
  have qp: "?q * unat period \<le> unat offset - unat currentTime - 1"
    by simp
  have ob: "unat offset < 2 ^ 64"
    using unsigned_less[of offset, where 'a = nat] by simp
  have "?q * unat period < 2 ^ 64"
    using qp ob by linarith
  then have um: "unat ((offset - currentTime - 1) div period * period) = ?q * unat period"
    using uq by (simp add: unat_mult_lem[THEN iffD1])
  have qo: "?q * unat period \<le> unat offset"
    using qp by linarith
  have "(offset - currentTime - 1) div period * period \<le> offset"
    unfolding word_le_nat_alt um by (rule qo)
  then have "unat (offset - (offset - currentTime - 1) div period * period)
               = unat offset - ?q * unat period"
    using um by (simp add: unat_sub)
  then show ?thesis
    using False lt by (simp add: computeNextTimeCadence_def leastOnCadence_def)
qed

lemma cadence_word:
  assumes p: "0 < period"
    and fits: "leastOnCadence (unat currentTime) (unat period) (unat offset) < 2 ^ 64"
  shows "currentTime < computeNextTimeCadence currentTime period offset"
    and "(uint (computeNextTimeCadence currentTime period offset) - uint offset) mod uint period = 0"
proof -
  have P: "0 < unat period"
    using p by (simp add: word_less_nat_alt)
  note u = unat_computeNextTimeCadence[OF p fits]
  show "currentTime < computeNextTimeCadence currentTime period offset"
    unfolding word_less_nat_alt u by (rule cadence_after[OF P])
  have "(int (leastOnCadence (unat currentTime) (unat period) (unat offset)) - int (unat offset))
          mod int (unat period) = 0"
    by (rule cadence_on)
  then show "(uint (computeNextTimeCadence currentTime period offset) - uint offset) mod uint period = 0"
    by (simp only: u[symmetric] uint_nat[symmetric])
qed

lemma cadence_word_fits:
  assumes p: "0 < period"
    and u: "currentTime < u" and on: "(uint u - uint offset) mod uint period = 0"
  shows "leastOnCadence (unat currentTime) (unat period) (unat offset) \<le> unat u"
proof -
  have P: "0 < unat period"
    using p by (simp add: word_less_nat_alt)
  have lt: "unat currentTime < unat u"
    using u by (simp add: word_less_nat_alt)
  have "(int (unat u) - int (unat offset)) mod int (unat period) = 0"
    using on by (simp only: uint_nat)
  then show ?thesis
    by (rule cadence_least[OF P lt])
qed

text \<open>
  Claim C3 is stated for all \<open>now\<close>. The result is a \<open>uint64_t\<close>, and at
  \<open>now = 2^64 - 1\<close> no such value is greater than \<open>now\<close>: with period 1 and offset 0
  the helper wraps around to 0.
\<close>

theorem C3_overflow_counterexample:
  "(0::u64) < 1
   \<and> computeNextTimeCadence 0xFFFFFFFFFFFFFFFF 1 0 = 0
   \<and> \<not> 0xFFFFFFFFFFFFFFFF < computeNextTimeCadence 0xFFFFFFFFFFFFFFFF 1 0"
  by (simp add: computeNextTimeCadence_def)

text \<open>
  Claim C3, amended. For a period greater than 0, whenever some 64-bit value greater
  than \<open>now\<close> is congruent to \<open>offset\<close> modulo \<open>period\<close> (the congruence taken on the
  unsigned values, without wrap-around), the result \<open>v\<close> of
  \<open>computeNextTimeCadence(now, period, offset)\<close> is greater than \<open>now\<close>, \<open>v - offset\<close> is
  a multiple of the period, and \<open>v\<close> is no greater than that value: it is the least
  one. Such a value exists whenever \<open>now + period\<close> does not overflow. When
  \<open>now = offset\<close> the result is \<open>offset + period\<close>; the two calls of scenario S3 give
  250 and 350.
\<close>

theorem C3_cadence_least_after_now:
  assumes "0 < period"
  shows "(\<forall>u. currentTime < u \<and> (uint u - uint offset) mod uint period = 0 \<longrightarrow>
            currentTime < computeNextTimeCadence currentTime period offset
          \<and> (uint (computeNextTimeCadence currentTime period offset) - uint offset) mod uint period = 0
          \<and> computeNextTimeCadence currentTime period offset \<le> u)
       \<and> (unat currentTime + unat period < 2 ^ 64 \<longrightarrow>
            currentTime < computeNextTimeCadence currentTime period offset
          \<and> (uint (computeNextTimeCadence currentTime period offset) - uint offset) mod uint period = 0)
       \<and> computeNextTimeCadence offset period offset = offset + period
       \<and> computeNextTimeCadence 150 100 50 = 250
       \<and> computeNextTimeCadence 250 100 50 = 350"
proof (intro conjI allI impI)
  fix u
  assume h: "currentTime < u \<and> (uint u - uint offset) mod uint period = 0"
  have le: "leastOnCadence (unat currentTime) (unat period) (unat offset) \<le> unat u"
    by (rule cadence_word_fits[OF assms h[THEN conjunct1] h[THEN conjunct2]])
  have ub: "unat u < 2 ^ 64"
    using unsigned_less[of u, where 'a = nat] by simp
  have fits: "leastOnCadence (unat currentTime) (unat period) (unat offset) < 2 ^ 64"
    using le ub by linarith
  show "currentTime < computeNextTimeCadence currentTime period offset"
    by (rule cadence_word(1)[OF assms fits])
  show "(uint (computeNextTimeCadence currentTime period offset) - uint offset) mod uint period = 0"
    by (rule cadence_word(2)[OF assms fits])
  show "computeNextTimeCadence currentTime period offset \<le> u"
    unfolding word_le_nat_alt unat_computeNextTimeCadence[OF assms fits] by (rule le)
next
  assume b: "unat currentTime + unat period < 2 ^ 64"
  have P: "0 < unat period"
    using assms by (simp add: word_less_nat_alt)
  have fits: "leastOnCadence (unat currentTime) (unat period) (unat offset) < 2 ^ 64"
    using cadence_le_period[OF P, of "unat currentTime" "unat offset"] b by linarith
  show "currentTime < computeNextTimeCadence currentTime period offset"
    by (rule cadence_word(1)[OF assms fits])
  show "(uint (computeNextTimeCadence currentTime period offset) - uint offset) mod uint period = 0"
    by (rule cadence_word(2)[OF assms fits])
next
  show "computeNextTimeCadence offset period offset = offset + period"
    by (simp add: computeNextTimeCadence_def)
  show "computeNextTimeCadence 150 100 50 = 250"
    by (simp add: computeNextTimeCadence_def)
  show "computeNextTimeCadence 250 100 50 = 350"
    by (simp add: computeNextTimeCadence_def)
qed

theorem C3_cadence_witness:
  "(0::u64) < 100
   \<and> (150::u64) < 250
   \<and> (uint (250::u64) - uint (50::u64)) mod uint (100::u64) = 0
   \<and> unat (150::u64) + unat (100::u64) < 2 ^ 64
   \<and> 150 < computeNextTimeCadence 150 100 50
   \<and> (uint (computeNextTimeCadence 150 100 50) - uint (50::u64)) mod uint (100::u64) = 0
   \<and> computeNextTimeCadence 150 100 50 \<le> 250
   \<and> computeNextTimeCadence 150 100 50 = 250"
proof -
  have p: "(0::u64) < 100" by simp
  have h: "(150::u64) < 250 \<and> (uint (250::u64) - uint (50::u64)) mod uint (100::u64) = 0"
    by (simp add: word_less_nat_alt)
  have b: "unat (150::u64) + unat (100::u64) < 2 ^ 64" by simp
  note c = C3_cadence_least_after_now[OF p, of 150 50]
  note d = c[THEN conjunct1, THEN spec, of 250, THEN mp, OF h]
  show ?thesis
  proof (intro conjI)
    show "(0::u64) < 100" by (rule p)
    show "(150::u64) < 250" by (rule h[THEN conjunct1])
    show "(uint (250::u64) - uint (50::u64)) mod uint (100::u64) = 0" by (rule h[THEN conjunct2])
    show "unat (150::u64) + unat (100::u64) < 2 ^ 64" by (rule b)
    show "150 < computeNextTimeCadence 150 100 50" by (rule d[THEN conjunct1])
    show "(uint (computeNextTimeCadence 150 100 50) - uint (50::u64)) mod uint (100::u64) = 0"
      by (rule d[THEN conjunct2, THEN conjunct1])
    show "computeNextTimeCadence 150 100 50 \<le> 250" by (rule d[THEN conjunct2, THEN conjunct2])
    show "computeNextTimeCadence 150 100 50 = 250"
      by (rule c[THEN conjunct2, THEN conjunct2, THEN conjunct2, THEN conjunct1])
  qed
qed
section \<open>Properties of the single-sender shortcut\<close>

lemma mask_C0: "(0xC0 :: u8) = NOT 0x3F"
  by simp

lemma single_sender_bits:
  fixes r a :: u8
  shows "((r AND 0x3F) OR a) AND 0xC0 = a AND 0xC0"
    and "((r AND 0x3F) OR a) AND 0x3F = (r AND 0x3F) OR (a AND 0x3F)"
proof -
  have "((r AND 0x3F) OR a) AND NOT 0x3F = a AND NOT 0x3F"
    by (simp add: bit.conj_disj_distrib2 and.assoc)
  then show "((r AND 0x3F) OR a) AND 0xC0 = a AND 0xC0"
    by (simp only: mask_C0)
  show "((r AND 0x3F) OR a) AND 0x3F = (r AND 0x3F) OR (a AND 0x3F)"
    by (simp add: bit.conj_disj_distrib2 and.assoc)
qed


text \<open>
  Claim C8, as stated, has the lower six bits of \<open>recipientAddr\<close> preserved. The source
  ORs the whole configured address into the masked recipient, so the lower six bits
  are preserved only when the configured address has none of its own: with the single
  sender address \<open>0x01\<close> the recipient \<open>0x20\<close> becomes \<open>0x21\<close>.
\<close>

theorem C8_low_bits_counterexample:
  "submitPacket [0x01] True False
      \<lparr>command = 0x09, recipientAddr = 0x20, senderAddr = 0x00, length_field = 0\<rparr> []
     = SchedulerAdd 0 flycastEchoTransmitter
         \<lparr>frame = \<lparr>command = 0x09, recipientAddr = 0x21, senderAddr = 0x01, length_field = 0\<rparr>,
          payload = []\<rparr>
   \<and> (0x21 :: u8) AND 0x3F \<noteq> 0x20 AND 0x3F"
  by (simp add: submitPacket_def isValid_def Let_def)

text \<open>
  Claim C8, amended. When exactly one sender address \<open>a\<close> is configured, every valid
  packet is added to scheduler 0 with \<open>senderAddr\<close> rewritten to \<open>a\<close> and
  \<open>recipientAddr\<close> rewritten to \<open>(recipientAddr & 0x3F) | a\<close>: its upper two bits are
  those of \<open>a\<close>, and its lower six bits are the old ones ORed with the lower six bits
  of \<open>a\<close>, hence the old ones when \<open>a\<close> has its lower six bits clear.
\<close>

theorem C8_single_sender_rewrite:
  assumes "isValid \<lparr>frame = f, payload = pw\<rparr>"
  shows "\<exists>r. submitPacket [a] True binaryParsed f pw
             = SchedulerAdd 0
                 (if binaryParsed then flycastBinaryEchoTransmitter else flycastEchoTransmitter)
                 \<lparr>frame = f\<lparr>recipientAddr := r, senderAddr := a\<rparr>, payload = pw\<rparr>
            \<and> r = (recipientAddr f AND 0x3F) OR a
            \<and> r AND 0xC0 = a AND 0xC0
            \<and> r AND 0x3F = (recipientAddr f AND 0x3F) OR (a AND 0x3F)
            \<and> (a AND 0x3F = 0 \<longrightarrow> r AND 0x3F = recipientAddr f AND 0x3F)"
  using assms by (simp add: submitPacket_def Let_def single_sender_bits)

theorem C8_single_sender_witness:
  "isValid \<lparr>frame = \<lparr>command = 0x09, recipientAddr = 0x20, senderAddr = 0x00, length_field = 1\<rparr>,
            payload = [0x00000001]\<rparr>
   \<and> submitPacket [0x40] True False
         \<lparr>command = 0x09, recipientAddr = 0x20, senderAddr = 0x00, length_field = 1\<rparr> [0x00000001]
       = SchedulerAdd 0 flycastEchoTransmitter
           \<lparr>frame = \<lparr>command = 0x09, recipientAddr = 0x60, senderAddr = 0x40, length_field = 1\<rparr>,
            payload = [0x00000001]\<rparr>"
proof -
  have v: "isValid \<lparr>frame = \<lparr>command = 0x09, recipientAddr = 0x20, senderAddr = 0x00, length_field = 1\<rparr>,
            payload = [0x00000001]\<rparr>"
    by (simp add: isValid_def)
  show ?thesis
    using C8_single_sender_rewrite[OF v, of "0x40" False] v by simp
qed


section \<open>Properties of the client's main loop\<close>

text \<open>
  Claim C7. When a packet has been sent before (\<open>packetSent\<close>, with the packet in
  \<open>lastPacketOut\<close>) and the packet received has the command
  \<open>COMMAND_RESPONSE_REQUEST_RESEND\<close>, the iteration makes exactly one call, the write of
  \<open>lastPacketOut\<close> as it is; \<open>dispensePacket\<close> is not called and the peripheral state is
  unchanged. (The client has no scheduler.)
\<close>

theorem C7_resend_request:
  assumes "phase status = READ_COMPLETE"
    and "readBuffer status = Some buf"
    and "packet_set buf (readBufferLen status) = Inr pin"
    and "command (frame pin) = COMMAND_RESPONSE_REQUEST_RESEND env"
    and "packetSent n"
  shows "\<exists>n'. core0_iteration env status n = Inr (n', [BusWrite (lastPacketOut n) False])
              \<and> mainPeripheral n' = mainPeripheral n
              \<and> packetOut n' = lastPacketOut n
              \<and> lastPacketOut n' = lastPacketOut n
              \<and> packetSent n'"
  using assms by (simp add: core0_iteration_def Let_def)

theorem C7_resend_request_witness:
  "phase resendRequestStatus = READ_COMPLETE
   \<and> packetSent exampleNode
   \<and> lastPacketOut exampleNode = examplePacket
   \<and> (\<exists>n'. core0_iteration exampleClientEnv resendRequestStatus exampleNode
                = Inr (n', [BusWrite examplePacket False])
             \<and> mainPeripheral n' = False)"
proof -
  have a: "phase resendRequestStatus = READ_COMPLETE"
    "readBuffer resendRequestStatus = Some [0xFC200000, 0, 0]"
    "packet_set [0xFC200000, 0, 0] (readBufferLen resendRequestStatus)
       = Inr \<lparr>frame = fromWord 0xFC200000, payload = []\<rparr>"
    by (simp_all add: resendRequestStatus_def packet_set_def fromWord_def)
  have b: "command (frame \<lparr>frame = fromWord 0xFC200000, payload = []\<rparr>)
             = COMMAND_RESPONSE_REQUEST_RESEND exampleClientEnv"
    by (simp add: fromWord_def exampleClientEnv_def)
  have c: "packetSent exampleNode" "lastPacketOut exampleNode = examplePacket"
    "mainPeripheral exampleNode = False"
    by (simp_all add: exampleNode_def)
  show ?thesis
    using C7_resend_request[OF a b c(1)] a(1) c by auto
qed

text \<open>
  Claim C9, as stated, makes the reply depend on a previously sent packet being
  buffered. The source tests \<open>mainPeripheral.isConnected()\<close> instead: a node that has
  sent a packet but whose peripheral is not connected resets the peripheral and writes
  nothing.
\<close>

theorem C9_not_connected_counterexample:
  "phase crcFailedStatus = READ_FAILED
   \<and> failureReason crcFailedStatus = Some CRC_INVALID
   \<and> packetSent exampleNode
   \<and> lastPacketOut exampleNode = examplePacket
   \<and> core0_iteration exampleClientEnv crcFailedStatus exampleNode
       = Inr (exampleNode\<lparr>mainPeripheral := False\<rparr>, [PeripheralReset])"
  by (simp add: core0_iteration_def crcFailedStatus_def defaultStatus_def exampleNode_def
      exampleClientEnv_def)

text \<open>
  Claim C9, amended. When a read ends in \<open>READ_FAILED\<close> with \<open>CRC_INVALID\<close> and the
  peripheral is connected, the node writes a packet with the command
  \<open>COMMAND_RESPONSE_REQUEST_RESEND\<close>, addressed to the last sender, sent from the
  peripheral's address, with no payload, whether or not a packet was sent before. When
  the peripheral is not connected the node resets it and writes nothing.
\<close>

theorem C9_crc_failure_reply:
  assumes "phase status = READ_FAILED" and "failureReason status = Some CRC_INVALID"
  shows "(isConnected env (mainPeripheral n) \<longrightarrow>
            (\<exists>out. core0_iteration env status n = Inr (n\<lparr>packetOut := out\<rparr>, [BusWrite out False])
                 \<and> command (frame out) = COMMAND_RESPONSE_REQUEST_RESEND env
                 \<and> recipientAddr (frame out) = lastSender n
                 \<and> senderAddr (frame out) = getAddress env (mainPeripheral n)
                 \<and> payload out = [] \<and> length_field (frame out) = 0))
       \<and> (\<not> isConnected env (mainPeripheral n) \<longrightarrow>
            core0_iteration env status n
              = Inr (n\<lparr>mainPeripheral := reset env (mainPeripheral n)\<rparr>, [PeripheralReset]))"
  using assms
  by (simp add: core0_iteration_def Let_def updateFrameLength_def packet_reset_def)

theorem C9_crc_failure_witness:
  "phase crcFailedStatus = READ_FAILED
   \<and> failureReason crcFailedStatus = Some CRC_INVALID
   \<and> core0_iteration exampleClientEnv crcFailedStatus (exampleNode\<lparr>mainPeripheral := True\<rparr>)
       = Inr (exampleNode\<lparr>mainPeripheral := True,
                packetOut := \<lparr>frame = \<lparr>command = 0xFC, recipientAddr = 0x00, senderAddr = 0x20,
                                        length_field = 0\<rparr>, payload = []\<rparr>\<rparr>,
              [BusWrite \<lparr>frame = \<lparr>command = 0xFC, recipientAddr = 0x00, senderAddr = 0x20,
                                   length_field = 0\<rparr>, payload = []\<rparr> False])
   \<and> core0_iteration exampleClientEnv crcFailedStatus exampleNode
       = Inr (exampleNode\<lparr>mainPeripheral := False\<rparr>, [PeripheralReset])"
proof -
  have a: "phase crcFailedStatus = READ_FAILED" "failureReason crcFailedStatus = Some CRC_INVALID"
    by (simp_all add: crcFailedStatus_def defaultStatus_def)
  have c: "isConnected exampleClientEnv (mainPeripheral (exampleNode\<lparr>mainPeripheral := True\<rparr>))"
    "\<not> isConnected exampleClientEnv (mainPeripheral exampleNode)"
    by (simp_all add: exampleClientEnv_def exampleNode_def)
  note t1 = C9_crc_failure_reply[OF a, of exampleClientEnv "exampleNode\<lparr>mainPeripheral := True\<rparr>",
              THEN conjunct1, THEN mp, OF c(1)]
  note t2 = C9_crc_failure_reply[OF a, of exampleClientEnv exampleNode,
              THEN conjunct2, THEN mp, OF c(2)]
  have g: "getAddress exampleClientEnv True = 0x20" "reset exampleClientEnv False = False"
    "COMMAND_RESPONSE_REQUEST_RESEND exampleClientEnv = 0xFC" "lastSender exampleNode = 0"
    by (simp_all add: exampleClientEnv_def exampleNode_def)
  from t1 obtain out where
    o: "core0_iteration exampleClientEnv crcFailedStatus (exampleNode\<lparr>mainPeripheral := True\<rparr>)
          = Inr (exampleNode\<lparr>mainPeripheral := True, packetOut := out\<rparr>, [BusWrite out False])"
      "command (frame out) = 0xFC" "recipientAddr (frame out) = 0" "senderAddr (frame out) = 0x20"
      "payload out = []" "length_field (frame out) = 0"
    using g by auto
  have "out = \<lparr>frame = \<lparr>command = 0xFC, recipientAddr = 0x00, senderAddr = 0x20,
                                        length_field = 0\<rparr>, payload = []\<rparr>"
    using o(2-6) by (cases out, cases "frame out") auto
  moreover have "exampleNode\<lparr>mainPeripheral := reset exampleClientEnv (mainPeripheral exampleNode)\<rparr>
                   = exampleNode\<lparr>mainPeripheral := False\<rparr>"
    by (simp add: exampleClientEnv_def)
  ultimately show ?thesis using o(1) t2 a by simp
qed

text \<open>
  How the example client reaches the state of the counterexample: it answers a request
  (and is connected), a read times out and the peripheral is reset, and the read that
  then fails its checksum gets no reply although a packet has been sent before.
\<close>

lemma core0_loop_silent_after_reset:
  "\<exists>n'. core0_loop exampleClientEnv [deviceInfoRequestStatus, readTimeoutStatus, crcFailedStatus]
            (exampleNode\<lparr>packetSent := False\<rparr>)
         = Inr (n',
                [[DispensePacket \<lparr>frame = fromWord 0x01200000, payload = []\<rparr>,
                  BusWrite \<lparr>frame = \<lparr>command = 0x05, recipientAddr = 0x00, senderAddr = 0x20,
                                       length_field = 0\<rparr>, payload = []\<rparr> False],
                 [PeripheralReset],
                 [PeripheralReset]])
       \<and> packetSent n'"
  by (simp add: core0_iteration_def deviceInfoRequestStatus_def readTimeoutStatus_def
      crcFailedStatus_def defaultStatus_def exampleNode_def exampleClientEnv_def packet_set_def
      fromWord_def Let_def)

section \<open>Properties of the default screens\<close>

lemma NUM_DEFAULT_SCREENS_value: "NUM_DEFAULT_SCREENS = 4"
  by (simp add: NUM_DEFAULT_SCREENS_def DEFAULT_SCREENS_def)

lemma guardedScreenNum_in_range:
  "defaultScreenNum \<noteq> NUM_DEFAULT_SCREENS \<Longrightarrow> guardedScreenNum defaultScreenNum < NUM_DEFAULT_SCREENS"
  by (auto simp: guardedScreenNum_def NUM_DEFAULT_SCREENS_value not_less)


text \<open>
  Claim C10 does not hold of the source. The guard is \<open>defaultScreenNum >
  NUM_DEFAULT_SCREENS\<close>, so the argument \<open>NUM_DEFAULT_SCREENS\<close> itself passes it unchanged:
  the constructor reads \<open>DEFAULT_SCREENS\<close> one row past its end, and so does
  \<open>setDataToADefault\<close> whenever \<open>setData\<close> obtains the lock (without the lock the row is
  not read and the screen data is unchanged). Every other argument gives an index in
  range (\<open>guardedScreenNum_in_range\<close>).
\<close>

theorem C10_index_at_bound:
  "guardedScreenNum NUM_DEFAULT_SCREENS = NUM_DEFAULT_SCREENS
   \<and> \<not> guardedScreenNum NUM_DEFAULT_SCREENS < NUM_DEFAULT_SCREENS
   \<and> NUM_DEFAULT_SCREENS = 4
   \<and> ScreenData_new 4 = Inl OUT_OF_BOUNDS
   \<and> setDataToADefault True 4 s = Inl OUT_OF_BOUNDS
   \<and> setDataToADefault False 4 s = Inr s"
proof -
  have l: "length DEFAULT_SCREENS = 4"
    by (simp add: DEFAULT_SCREENS_def)
  have g: "guardedScreenNum 4 = 4"
    by (simp add: guardedScreenNum_def NUM_DEFAULT_SCREENS_value)
  have r: "readDefaultScreen 4 = Inl OUT_OF_BOUNDS"
    by (simp add: readDefaultScreen_def l)
  show ?thesis
    using g by (simp add: NUM_DEFAULT_SCREENS_value ScreenData_new_def setDataToADefault_def r)
qed

end
